theory Spec2Isabelle
  imports Complex_Main "HOL-Library.Monad_Syntax"
begin

section \<open>Points and vectors\<close>

text \<open>
  \<^verbatim>\<open>Point\<close> (point.go) has two \<^verbatim>\<open>float64\<close> coordinates; \<^verbatim>\<open>geom.Vec2\<close> has two
  \<^verbatim>\<open>float32\<close> coordinates. The two float types are the type variables \<open>'d\<close> and \<open>'s\<close>.
  Their arithmetic is written with the operators of the purely syntactic classes
  (\<open>plus\<close>, \<open>minus\<close>, \<open>times\<close>, \<open>uminus\<close>, \<open>zero\<close>, \<open>ord\<close>), which assume no law of
  arithmetic: every theorem below that is stated for all \<open>'d\<close> and \<open>'s\<close> holds for
  whatever the machine operations compute. The one thing taken from HOL is equality:
  Go's \<^verbatim>\<open>==\<close> on coordinates is read as \<open>=\<close>, which is right for every value except NaN.
\<close>

record 'd Point =
  X :: 'd
  Y :: 'd

definition Pt :: "'d \<Rightarrow> 'd \<Rightarrow> 'd Point" where
  "Pt x y = \<lparr>Point.X = x, Point.Y = y\<rparr>"

definition Add :: "('d::plus) Point \<Rightarrow> 'd Point \<Rightarrow> 'd Point" where
  "Add p q = \<lparr>Point.X = Point.X p + Point.X q, Point.Y = Point.Y p + Point.Y q\<rparr>"

definition Sub :: "('d::minus) Point \<Rightarrow> 'd Point \<Rightarrow> 'd Point" where
  "Sub p q = \<lparr>Point.X = Point.X p - Point.X q, Point.Y = Point.Y p - Point.Y q\<rparr>"

record 's Vec2 =
  X :: 's
  Y :: 's

text \<open>\<^verbatim>\<open>poly.LineSeg{A: start, B: end}\<close>\<close>

record 's LineSeg =
  segA :: "'s Vec2"
  segB :: "'s Vec2"

type_synonym 's Polygon = "'s Vec2 list"
type_synonym 's PolygonSet = "'s Polygon list"

text \<open>
  The visibility graph is a Go map from points to slices of points. A slice is a list
  (\<^verbatim>\<open>nil\<close> is \<open>[]\<close>): the code only ever appends to the slices it shares, never assigns
  an element of one, so the elements a slice shows never change. A map is an object that
  is mutated in place and shared by reference, so maps live in a store: the list of the
  map objects allocated so far, addressed by position.
\<close>

type_synonym 'd graph = "'d Point \<rightharpoonup> 'd Point list"
type_synonym addr = nat
type_synonym 'd heap = "'d graph list"

text \<open>
  The struct \<^verbatim>\<open>Pathfinder\<close> exists in two revisions. The later one (the unnamed source
  file) caches the visibility graph of the reflex vertices in \<^verbatim>\<open>cachedGraph\<close>; it keeps
  the source's names here. The one of src/pathfinder.go rebuilds the whole graph in every
  call of \<^verbatim>\<open>Path\<close> and stores it in \<^verbatim>\<open>visibilityGraph\<close> (\<open>None\<close> is the nil map); its
  names carry the suffix \<open>0\<close>. A map-typed field holds the address of the map object.
\<close>

record ('d, 's) Pathfinder =
  polygons :: "'d Point list list"
  polygonSet :: "'s PolygonSet"
  concaveVertices :: "'d Point list"
  cachedGraph :: addr

record ('d, 's) Pathfinder0 =
  polygons :: "'d Point list list"
  polygonSet :: "'s PolygonSet"
  concaveVertices :: "'d Point list"
  visibilityGraph :: "addr option"

section \<open>What the code calls but src/ does not hold\<close>

text \<open>
  The record \<open>env\<close> collects every operation that pathfinder.go calls and whose code is
  not among the source files: the float conversions and \<^verbatim>\<open>math\<close> functions, the constant
  \<^verbatim>\<open>margin\<close> at both float types, the methods of \<^verbatim>\<open>geom.Vec2\<close>, the package
  \<^verbatim>\<open>internal/poly\<close> and \<^verbatim>\<open>astar.FindPath\<close>. The functions of pathfinder.go take it as
  their first argument, and the general theorems hold for every \<open>env\<close>.

  \<^verbatim>\<open>FindPath\<close> returns a nil-able slice: \<open>None\<close> is \<^verbatim>\<open>nil\<close>.
\<close>

record ('d, 's) env =
  float32 :: "'d \<Rightarrow> 's"
  float64 :: "'s \<Rightarrow> 'd"
  int_float64 :: "int \<Rightarrow> 'd"
  math_Round :: "'d \<Rightarrow> 'd"
  math_Sqrt :: "'d \<Rightarrow> 'd"
  margin :: "'d"
  margin32 :: "'s"
  Vec2_Add :: "'s Vec2 \<Rightarrow> 's Vec2 \<Rightarrow> 's Vec2"
  Vec2_Sub :: "'s Vec2 \<Rightarrow> 's Vec2 \<Rightarrow> 's Vec2"
  Vec2_Mul :: "'s Vec2 \<Rightarrow> 's \<Rightarrow> 's Vec2"
  Vec2_Norm :: "'s Vec2 \<Rightarrow> 's Vec2"
  Vec2_Len :: "'s Vec2 \<Rightarrow> 's"
  Vec2_NearEq :: "'s Vec2 \<Rightarrow> 's Vec2 \<Rightarrow> bool"
  Polygon_Contains :: "'s Polygon \<Rightarrow> 's Vec2 \<Rightarrow> bool \<Rightarrow> bool"
  Polygon_IsConcaveAt :: "'s Polygon \<Rightarrow> nat \<Rightarrow> bool"
  Polygon_IsCrossedBy :: "'s Polygon \<Rightarrow> 's LineSeg \<Rightarrow> bool"
  Polygon_Orientation :: "'s Polygon \<Rightarrow> 's"
  Polygon_WrapIndex :: "'s Polygon \<Rightarrow> int \<Rightarrow> int"
  PolygonSet_Contains :: "'s PolygonSet \<Rightarrow> 's Vec2 \<Rightarrow> bool"
  PolygonSet_ClosestPt :: "'s PolygonSet \<Rightarrow> 's Vec2 \<Rightarrow> 's Vec2"
  LineSeg_Middle :: "'s LineSeg \<Rightarrow> 's Vec2"
  astar_FindPath :: "'d graph \<Rightarrow> 'd Point \<Rightarrow> 'd Point \<Rightarrow>
     ('d Point \<Rightarrow> 'd Point \<Rightarrow> 'd) \<Rightarrow> ('d Point \<Rightarrow> 'd Point \<Rightarrow> 'd) \<Rightarrow> 'd Point list option"

text \<open>
  Reading a slice at an index: \<open>None\<close> is Go's index-out-of-range panic. Every function
  below that can panic returns an option, \<open>None\<close> for the panic.
\<close>

definition index :: "'a list \<Rightarrow> int \<Rightarrow> 'a option" where
  "index xs i = (if 0 \<le> i \<and> i < int (length xs) then Some (xs ! nat i) else None)"

text \<open>Reading a map at a key: a missing key reads as the zero value, the nil slice.\<close>

definition lookup :: "'d graph \<Rightarrow> 'd Point \<Rightarrow> 'd Point list" where
  "lookup g n = (case g n of None \<Rightarrow> [] | Some adj \<Rightarrow> adj)"

definition make_graph :: "'d heap \<Rightarrow> addr \<times> 'd heap" where
  "make_graph h = (length h, h @ [Map.empty])"

text \<open>The map assignment \<^verbatim>\<open>g[n] = adj\<close>.\<close>

definition assign :: "addr \<Rightarrow> 'd Point \<Rightarrow> 'd Point list \<Rightarrow> 'd heap \<Rightarrow> 'd heap" where
  "assign g n adj h = h[g := (h ! g)(n \<mapsto> adj)]"

text \<open>
  Modelled from the spec: the type \<^verbatim>\<open>graph\<close> and its method \<^verbatim>\<open>link\<close> are declared in a
  file that is not under src/. The spec has the graph as a directed adjacency structure,
  a mapping from a point to the ordered sequence of its neighbours, to which each
  successful visibility test adds its own directed edge: \<^verbatim>\<open>link(a, b)\<close> appends \<open>b\<close> to
  the neighbours of \<open>a\<close>.
\<close>

definition link :: "addr \<Rightarrow> 'd Point \<Rightarrow> 'd Point \<Rightarrow> 'd heap \<Rightarrow> 'd heap" where
  "link g a b h = assign g a (lookup (h ! g) a @ [b]) h"

section \<open>convert.go\<close>

definition p2v :: "('d, 's) env \<Rightarrow> 'd Point \<Rightarrow> 's Vec2" where
  "p2v E p = \<lparr>Vec2.X = float32 E (Point.X p), Vec2.Y = float32 E (Point.Y p)\<rparr>"

definition v2p :: "('d, 's) env \<Rightarrow> 's Vec2 \<Rightarrow> 'd Point" where
  "v2p E v = \<lparr>Point.X = math_Round E (float64 E (Vec2.X v)),
              Point.Y = math_Round E (float64 E (Vec2.Y v))\<rparr>"

definition convert :: "'a list \<Rightarrow> ('a \<Rightarrow> 'b) \<Rightarrow> 'b list" where
  "convert s f = fold (\<lambda>e res. res @ [f e]) s []"

definition ps2vs :: "('d, 's) env \<Rightarrow> 'd Point list \<Rightarrow> 's Vec2 list" where
  "ps2vs E ps = convert ps (p2v E)"

section \<open>pathfinder.go: the functions both revisions share\<close>

definition containmentLevel :: "('d, 's) env \<Rightarrow> 's PolygonSet \<Rightarrow> 'd Point \<Rightarrow> int" where
  "containmentLevel E ps pt =
     (let v = p2v E pt
      in fold (\<lambda>p level. if Polygon_Contains E p v True then level + 1 else level) ps 0)"

text \<open>
  \<^verbatim>\<open>ps[i][0]\<close> is read only when \<^verbatim>\<open>i != j\<close> (the \<^verbatim>\<open>&&\<close> short-circuits), and panics
  when polygon \<open>i\<close> is empty.
\<close>

definition isHole :: "('d, 's) env \<Rightarrow> 's PolygonSet \<Rightarrow> nat \<Rightarrow> bool option" where
  "isHole E ps i =
     fold (\<lambda>(j, p) r. do {
             hole \<leftarrow> r;
             if i \<noteq> j then do {
               psi \<leftarrow> index ps (int i);
               v \<leftarrow> index psi 0;
               Some (if Polygon_Contains E p v False then \<not> hole else hole)
             } else Some hole
           }) (List.enumerate 0 ps) (Some False)"

datatype vertexType = concave | convex

definition verticesOfType :: "('d, 's) env \<Rightarrow> 's Polygon \<Rightarrow> vertexType \<Rightarrow> 'd Point list" where
  "verticesOfType E p t =
     fold (\<lambda>(i, v) vs.
             (let isConcave = Polygon_IsConcaveAt E p i
              in if (t = concave \<and> isConcave) \<or> (t = convex \<and> \<not> isConcave)
                 then vs @ [v2p E v] else vs))
          (List.enumerate 0 p) []"

definition concaveVertices :: "('d, 's) env \<Rightarrow> 's PolygonSet \<Rightarrow> 'd Point list option" where
  "concaveVertices E ps =
     fold (\<lambda>(i, p) r. do {
             vs \<leftarrow> r;
             hole \<leftarrow> isHole E ps i;
             Some (vs @ verticesOfType E p (if hole then convex else concave))
           }) (List.enumerate 0 ps) (Some [])"

definition inLineOfSight :: "('d, 's) env \<Rightarrow> 's PolygonSet \<Rightarrow> 's Vec2 \<Rightarrow> 's Vec2 \<Rightarrow> bool" where
  "inLineOfSight E ps start end =
     (let lineOfSight = \<lparr>segA = start, segB = end\<rparr>
      in case find (\<lambda>p. Polygon_IsCrossedBy E p lineOfSight) ps of
           Some p \<Rightarrow> False
         | None \<Rightarrow> PolygonSet_Contains E ps (LineSeg_Middle E lineOfSight))"

definition visibilityGraph ::
  "('d, 's) env \<Rightarrow> 's PolygonSet \<Rightarrow> 'd Point list \<Rightarrow> 'd heap \<Rightarrow> addr \<times> 'd heap" where
  "visibilityGraph E ps points h =
     (let (vis, h1) = make_graph h
      in (vis,
          fold (\<lambda>(i, a).
                  fold (\<lambda>(j, b) h'.
                          if i = j then h'
                          else if inLineOfSight E ps (p2v E a) (p2v E b) then link vis a b h'
                          else h')
                       (List.enumerate 0 points))
               (List.enumerate 0 points) h1))"

definition nodeDist :: "('d::{plus,minus,times}, 's) env \<Rightarrow> 'd Point \<Rightarrow> 'd Point \<Rightarrow> 'd" where
  "nodeDist E a b =
     (let c = Sub a b
      in math_Sqrt E (Point.X c * Point.X c + Point.Y c * Point.Y c))"

text \<open>
  The two nested loops of \<^verbatim>\<open>ensureInside\<close> try the eight neighbours in the order of
  \<^verbatim>\<open>dx\<close>, then \<^verbatim>\<open>dy\<close>, and \<^verbatim>\<open>break adjustment\<close> leaves both at the first one that the
  polygon set contains.
\<close>

definition ensureInside ::
  "('d::{plus,times}, 's) env \<Rightarrow> 's PolygonSet \<Rightarrow> 'd Point \<Rightarrow> 'd Point" where
  "ensureInside E ps pt =
     (if PolygonSet_Contains E ps (p2v E pt) then pt
      else case find (\<lambda>npt. PolygonSet_Contains E ps (p2v E npt))
                  (map (\<lambda>(dx, dy). Add pt \<lparr>Point.X = int_float64 E dx * margin E,
                                            Point.Y = int_float64 E dy * margin E\<rparr>)
                       (filter (\<lambda>(dx, dy). \<not> (dx = 0 \<and> dy = 0))
                          (List.product [-1, 0, 1] [-1, 0, 1]))) of
             Some npt \<Rightarrow> npt
           | None \<Rightarrow> pt)"

text \<open>
  The lines of \<^verbatim>\<open>Path\<close> that replace a destination outside the polygon set, under a name
  of their own (both revisions have them word for word):
  \<^verbatim>\<open>d := p2v(dest); if !p.polygonSet.Contains(d) { dest = ensureInside(..., v2p(...ClosestPt(d))) }\<close>
\<close>

definition clampedDest ::
  "('d::{plus,times}, 's) env \<Rightarrow> 's PolygonSet \<Rightarrow> 'd Point \<Rightarrow> 'd Point" where
  "clampedDest E ps dest =
     (let d = p2v E dest
      in if \<not> PolygonSet_Contains E ps d
         then ensureInside E ps (v2p E (PolygonSet_ClosestPt E ps d))
         else dest)"

text \<open>
  The loop \<^verbatim>\<open>for i := 1; i < len(path)-1; i++ { path[i] = offset(ps, path[i]) }\<close> of
  \<^verbatim>\<open>Path\<close>, for either revision's \<^verbatim>\<open>offsetFromBoundary\<close>; a panic of one call is a
  panic of the loop.
\<close>

definition offsetWaypoints ::
  "('d Point \<Rightarrow> 'd Point option) \<Rightarrow> 'd Point list \<Rightarrow> 'd Point list option" where
  "offsetWaypoints offset path =
     those (map (\<lambda>(i, w). if 1 \<le> i \<and> int i < int (length path) - 1 then offset w else Some w)
                (List.enumerate 0 path))"

section \<open>The later revision: cached base graph\<close>

text \<open>How a loop body ends: it panics, falls through to the next round, or returns.\<close>

datatype 'a loop = Panic | Continue | Return 'a

text \<open>
  The body of \<^verbatim>\<open>if pv.NearEq(v)\<close> up to the scaled bisector: \<open>None\<close> when one of the two
  index expressions \<^verbatim>\<open>p[p.WrapIndex(i-1)]\<close>, \<^verbatim>\<open>p[p.WrapIndex(i+1)]\<close> panics.
\<close>

definition bisector ::
  "('d, 's::{zero,ord,uminus}) env \<Rightarrow> 's Polygon \<Rightarrow> 's \<Rightarrow> nat \<Rightarrow> 's Vec2 \<Rightarrow> 's Vec2 option" where
  "bisector E p orient i pv = do {
     prev \<leftarrow> index p (Polygon_WrapIndex E p (int i - 1));
     next \<leftarrow> index p (Polygon_WrapIndex E p (int i + 1));
     let e1 = Vec2_Norm E (Vec2_Sub E pv prev);
         e2 = Vec2_Norm E (Vec2_Sub E next pv);
         (n1, n2) = (if orient > 0
                     then (\<lparr>Vec2.X = Vec2.Y e1, Vec2.Y = - Vec2.X e1\<rparr>,
                           \<lparr>Vec2.X = Vec2.Y e2, Vec2.Y = - Vec2.X e2\<rparr>)
                     else (\<lparr>Vec2.X = - Vec2.Y e1, Vec2.Y = Vec2.X e1\<rparr>,
                           \<lparr>Vec2.X = - Vec2.Y e2, Vec2.Y = Vec2.X e2\<rparr>));
         bis = Vec2_Add E n1 n2;
         bis = (if Vec2_Len E bis = 0 then n1 else bis)
     in Some (Vec2_Mul E (Vec2_Norm E bis) (margin32 E))
   }"

fun offsetVertices ::
  "('d, 's::{zero,ord,uminus}) env \<Rightarrow> 's PolygonSet \<Rightarrow> 's Polygon \<Rightarrow> 's \<Rightarrow> bool \<Rightarrow> 's Vec2 \<Rightarrow>
     (nat \<times> 's Vec2) list \<Rightarrow> 'd Point loop" where
  "offsetVertices E ps p orient hole v [] = Continue"
| "offsetVertices E ps p orient hole v ((i, pv) # rest) =
     (if Vec2_NearEq E pv v then
        (case bisector E p orient i pv of
           None \<Rightarrow> Panic
         | Some bis \<Rightarrow>
             if hole then
               (let moved = Vec2_Add E pv bis
                in if PolygonSet_Contains E ps moved then Return (v2p E moved)
                   else offsetVertices E ps p orient hole v rest)
             else
               (let movedIn = Vec2_Sub E pv bis
                in if PolygonSet_Contains E ps movedIn then Return (v2p E movedIn)
                   else offsetVertices E ps p orient hole v rest))
      else offsetVertices E ps p orient hole v rest)"

fun offsetPolygons ::
  "('d, 's::{zero,ord,uminus}) env \<Rightarrow> 's PolygonSet \<Rightarrow> 's Vec2 \<Rightarrow> 'd Point \<Rightarrow>
     (nat \<times> 's Polygon) list \<Rightarrow> 'd Point option" where
  "offsetPolygons E ps v pt [] = Some pt"
| "offsetPolygons E ps v pt ((pi', p) # rest) =
     (let orient = Polygon_Orientation E p
      in case isHole E ps pi' of
           None \<Rightarrow> None
         | Some hole \<Rightarrow>
             (case offsetVertices E ps p orient hole v (List.enumerate 0 p) of
                Panic \<Rightarrow> None
              | Return r \<Rightarrow> Some r
              | Continue \<Rightarrow> offsetPolygons E ps v pt rest))"

definition offsetFromBoundary ::
  "('d, 's::{zero,ord,uminus}) env \<Rightarrow> 's PolygonSet \<Rightarrow> 'd Point \<Rightarrow> 'd Point option" where
  "offsetFromBoundary E ps pt = offsetPolygons E ps (p2v E pt) pt (List.enumerate 0 ps)"

definition NewPathfinder ::
  "('d, 's) env \<Rightarrow> 'd Point list list \<Rightarrow> 'd heap \<Rightarrow> (('d, 's) Pathfinder \<times> 'd heap) option" where
  "NewPathfinder E polygons' h = do {
     let polygonSet = convert polygons' (\<lambda>ps. ps2vs E ps);
     concave \<leftarrow> concaveVertices E polygonSet;
     let (g, h') = visibilityGraph E polygonSet concave h;
     Some (\<lparr>Pathfinder.polygons = polygons', Pathfinder.polygonSet = polygonSet,
            Pathfinder.concaveVertices = concave, cachedGraph = g\<rparr>, h')
   }"

text \<open>
  \<^verbatim>\<open>for n, adj := range src\<close> visits the keys of the map in an order that the Go runtime
  chooses anew at every loop. The order is the argument \<open>ks\<close>: a list of the keys of
  \<open>src\<close>.
\<close>

definition copyGraph :: "addr \<Rightarrow> 'd Point list \<Rightarrow> 'd heap \<Rightarrow> addr \<times> 'd heap" where
  "copyGraph src ks h =
     (let (dst, h1) = make_graph h
      in (dst,
          fold (\<lambda>n h'. case (h' ! src) n of
                          None \<Rightarrow> h'
                        | Some adj \<Rightarrow> if length adj > 0 then assign dst n ([] @ adj) h' else h')
               ks h1))"

definition prepareVisibilityGraph ::
  "('d, 's) env \<Rightarrow> ('d, 's) Pathfinder \<Rightarrow> 'd Point \<Rightarrow> 'd Point \<Rightarrow> 'd Point list \<Rightarrow> 'd heap \<Rightarrow>
     addr \<times> 'd heap" where
  "prepareVisibilityGraph E p start dest ks h =
     (let (vis, h) = copyGraph (cachedGraph p) ks h;
          h = assign vis start (lookup (h ! vis) start) h;
          h = assign vis dest (lookup (h ! vis) dest) h;
          los = (\<lambda>a b. inLineOfSight E (Pathfinder.polygonSet p) (p2v E a) (p2v E b));
          points = [] @ Pathfinder.concaveVertices p;
          points = points @ [dest];
          h = fold (\<lambda>b h.
                 (let h = (if b \<noteq> start \<and> los start b then link vis start b h else h)
                  in if b \<noteq> start \<and> los b start then link vis b start h else h))
               points h;
          points = Pathfinder.concaveVertices p @ [start];
          h = fold (\<lambda>b h.
                 (let h = (if b \<noteq> dest \<and> los dest b then link vis dest b h else h)
                  in if b \<noteq> dest \<and> los b dest then link vis b dest h else h))
               points h;
          h = (if los start dest then link vis dest start (link vis start dest h) else h)
      in (vis, h))"

text \<open>
  \<^verbatim>\<open>Path\<close> has a pointer receiver, so it returns the pathfinder it leaves behind along
  with the store; its result is a nil-able slice (\<open>None\<close> is \<^verbatim>\<open>nil\<close>). The outer option
  is \<open>None\<close> when the call panics.
\<close>

definition Path ::
  "('d::{plus,minus,times}, 's::{zero,ord,uminus}) env \<Rightarrow> ('d, 's) Pathfinder \<Rightarrow>
     'd Point \<Rightarrow> 'd Point \<Rightarrow> 'd Point list \<Rightarrow> 'd heap \<Rightarrow>
     ('d Point list option \<times> ('d, 's) Pathfinder \<times> 'd heap) option" where
  "Path E p start dest ks h =
     (if containmentLevel E (Pathfinder.polygonSet p) start
           \<noteq> containmentLevel E (Pathfinder.polygonSet p) dest
      then Some (None, p, h)
      else
        (let dest = clampedDest E (Pathfinder.polygonSet p) dest;
             (visibilityGraph, h) = prepareVisibilityGraph E p start dest ks h
         in case astar_FindPath E (h ! visibilityGraph) start dest (nodeDist E) (nodeDist E) of
              None \<Rightarrow> Some (None, p, h)
            | Some path \<Rightarrow> do {
                path \<leftarrow> offsetWaypoints (offsetFromBoundary E (Pathfinder.polygonSet p)) path;
                Some (Some path, p, h)
              }))"

section \<open>The revision of src/pathfinder.go: full rebuild at every query\<close>

definition bisector0 ::
  "('d, 's::{zero,uminus}) env \<Rightarrow> 's Polygon \<Rightarrow> nat \<Rightarrow> 's Vec2 \<Rightarrow> 's Vec2 option" where
  "bisector0 E p i pv = do {
     prev \<leftarrow> index p (Polygon_WrapIndex E p (int i - 1));
     next \<leftarrow> index p (Polygon_WrapIndex E p (int i + 1));
     let e1 = Vec2_Norm E (Vec2_Sub E pv prev);
         e2 = Vec2_Norm E (Vec2_Sub E next pv);
         bis = Vec2_Add E e1 e2;
         bis = (if Vec2_Len E bis = 0 then \<lparr>Vec2.X = - Vec2.Y e1, Vec2.Y = Vec2.X e1\<rparr> else bis)
     in Some (Vec2_Mul E (Vec2_Norm E bis) (margin32 E))
   }"

fun offsetVertices0 ::
  "('d, 's::{zero,uminus}) env \<Rightarrow> 's PolygonSet \<Rightarrow> 's Polygon \<Rightarrow> 's Vec2 \<Rightarrow>
     (nat \<times> 's Vec2) list \<Rightarrow> 'd Point loop" where
  "offsetVertices0 E ps p v [] = Continue"
| "offsetVertices0 E ps p v ((i, pv) # rest) =
     (if Vec2_NearEq E pv v then
        (case bisector0 E p i pv of
           None \<Rightarrow> Panic
         | Some bis \<Rightarrow>
             (let moved = Vec2_Add E pv bis
              in if PolygonSet_Contains E ps moved then Return (v2p E moved)
                 else offsetVertices0 E ps p v rest))
      else offsetVertices0 E ps p v rest)"

fun offsetPolygons0 ::
  "('d, 's::{zero,uminus}) env \<Rightarrow> 's PolygonSet \<Rightarrow> 's Vec2 \<Rightarrow> 'd Point \<Rightarrow>
     's Polygon list \<Rightarrow> 'd Point option" where
  "offsetPolygons0 E ps v pt [] = Some pt"
| "offsetPolygons0 E ps v pt (p # rest) =
     (case offsetVertices0 E ps p v (List.enumerate 0 p) of
        Panic \<Rightarrow> None
      | Return r \<Rightarrow> Some r
      | Continue \<Rightarrow> offsetPolygons0 E ps v pt rest)"

definition offsetFromBoundary0 ::
  "('d, 's::{zero,uminus}) env \<Rightarrow> 's PolygonSet \<Rightarrow> 'd Point \<Rightarrow> 'd Point option" where
  "offsetFromBoundary0 E ps pt = offsetPolygons0 E ps (p2v E pt) pt ps"

definition NewPathfinder0 ::
  "('d, 's) env \<Rightarrow> 'd Point list list \<Rightarrow> ('d, 's) Pathfinder0 option" where
  "NewPathfinder0 E polygons' = do {
     let polygonSet = convert polygons' (\<lambda>ps. ps2vs E ps);
     concave \<leftarrow> concaveVertices E polygonSet;
     Some \<lparr>Pathfinder0.polygons = polygons', Pathfinder0.polygonSet = polygonSet,
           Pathfinder0.concaveVertices = concave, Pathfinder0.visibilityGraph = None\<rparr>
   }"

definition VisibilityGraph0 :: "('d, 's) Pathfinder0 \<Rightarrow> 'd heap \<Rightarrow> 'd graph option" where
  "VisibilityGraph0 p h = map_option (\<lambda>g. h ! g) (Pathfinder0.visibilityGraph p)"

definition Path0 ::
  "('d::{plus,minus,times}, 's::{zero,uminus}) env \<Rightarrow> ('d, 's) Pathfinder0 \<Rightarrow>
     'd Point \<Rightarrow> 'd Point \<Rightarrow> 'd heap \<Rightarrow>
     ('d Point list option \<times> ('d, 's) Pathfinder0 \<times> 'd heap) option" where
  "Path0 E p start dest h =
     (if containmentLevel E (Pathfinder0.polygonSet p) start
           \<noteq> containmentLevel E (Pathfinder0.polygonSet p) dest
      then Some (None, p, h)
      else
        (let dest = clampedDest E (Pathfinder0.polygonSet p) dest;
             graphVertices = Pathfinder0.concaveVertices p @ [start, dest];
             (g, h) = visibilityGraph E (Pathfinder0.polygonSet p) graphVertices h;
             p = p\<lparr>Pathfinder0.visibilityGraph := Some g\<rparr>
         in case astar_FindPath E (h ! g) start dest (nodeDist E) (nodeDist E) of
              None \<Rightarrow> Some (None, p, h)
            | Some path \<Rightarrow> do {
                path \<leftarrow> offsetWaypoints (offsetFromBoundary0 E (Pathfinder0.polygonSet p)) path;
                Some (Some path, p, h)
              }))"

section \<open>An exact-arithmetic environment\<close>

text \<open>
  To run the model on concrete polygons, \<open>ideal\<close> is an \<open>env\<close> over the rationals: both
  float types are \<open>rat\<close>, the conversions between them are the identity, and arithmetic
  is exact. Square roots are cut off after six decimals. \<^verbatim>\<open>math.Round\<close> rounds half away
  from zero, and \<^verbatim>\<open>margin\<close> is the constant of the later revision, 0.002.

  Modelled from the spec: the package \<^verbatim>\<open>internal/poly\<close> is not under src/. Its operations
  follow section 6 of the spec: \<^verbatim>\<open>contains(point, boundaryInclusive)\<close> is the even-odd
  rule for a point off the boundary and the flag for a point on it; a vertex is concave
  when the polygon turns against its orientation there; the orientation is the signed
  area (positive for counterclockwise); a segment crosses a polygon when it properly
  intersects one of its edges; the polygon set contains the points whose containment
  level is odd; the closest point is the nearest point on any edge.

  The methods of \<^verbatim>\<open>geom.Vec2\<close> and \<^verbatim>\<open>astar.FindPath\<close> belong to other repositories.
  Here the vector operations are the componentwise ones, and the search returns a cheapest
  simple path of at most 16 nodes, found by trying them all.
\<close>

definition go_Round :: "rat \<Rightarrow> rat" where
  "go_Round x = (if x < 0 then - of_int \<lfloor>- x + 1 / 2\<rfloor> else of_int \<lfloor>x + 1 / 2\<rfloor>)"

fun isqrt_bisect :: "nat \<Rightarrow> int \<Rightarrow> int \<Rightarrow> int \<Rightarrow> int" where
  "isqrt_bisect 0 n lo hi = lo"
| "isqrt_bisect (Suc k) n lo hi =
     (if hi \<le> lo + 1 then lo
      else (let mid = (lo + hi) div 2
            in if mid * mid \<le> n then isqrt_bisect k n mid hi else isqrt_bisect k n lo mid))"

definition ideal_Sqrt :: "rat \<Rightarrow> rat" where
  "ideal_Sqrt q = of_int (isqrt_bisect 64 \<lfloor>q * 10 ^ 12\<rfloor> 0 (\<lfloor>q * 10 ^ 12\<rfloor> + 1)) / 10 ^ 6"

definition vec :: "rat \<Rightarrow> rat \<Rightarrow> rat Vec2" where
  "vec x y = \<lparr>Vec2.X = x, Vec2.Y = y\<rparr>"

definition ideal_Add :: "rat Vec2 \<Rightarrow> rat Vec2 \<Rightarrow> rat Vec2" where
  "ideal_Add a b = vec (Vec2.X a + Vec2.X b) (Vec2.Y a + Vec2.Y b)"

definition ideal_Sub :: "rat Vec2 \<Rightarrow> rat Vec2 \<Rightarrow> rat Vec2" where
  "ideal_Sub a b = vec (Vec2.X a - Vec2.X b) (Vec2.Y a - Vec2.Y b)"

definition ideal_Mul :: "rat Vec2 \<Rightarrow> rat \<Rightarrow> rat Vec2" where
  "ideal_Mul a k = vec (Vec2.X a * k) (Vec2.Y a * k)"

definition ideal_Len :: "rat Vec2 \<Rightarrow> rat" where
  "ideal_Len a = ideal_Sqrt (Vec2.X a * Vec2.X a + Vec2.Y a * Vec2.Y a)"

definition ideal_Norm :: "rat Vec2 \<Rightarrow> rat Vec2" where
  "ideal_Norm a = (let l = ideal_Len a in if l = 0 then a else vec (Vec2.X a / l) (Vec2.Y a / l))"

definition ideal_NearEq :: "rat Vec2 \<Rightarrow> rat Vec2 \<Rightarrow> bool" where
  "ideal_NearEq a b \<longleftrightarrow>
     \<bar>Vec2.X a - Vec2.X b\<bar> \<le> 1 / 10 ^ 6 \<and> \<bar>Vec2.Y a - Vec2.Y b\<bar> \<le> 1 / 10 ^ 6"

definition edges :: "'a list \<Rightarrow> ('a \<times> 'a) list" where
  "edges p = zip p (rotate1 p)"

definition cross :: "rat Vec2 \<Rightarrow> rat Vec2 \<Rightarrow> rat Vec2 \<Rightarrow> rat" where
  "cross a b c = (Vec2.X b - Vec2.X a) * (Vec2.Y c - Vec2.Y a)
               - (Vec2.Y b - Vec2.Y a) * (Vec2.X c - Vec2.X a)"

definition on_segment :: "rat Vec2 \<Rightarrow> rat Vec2 \<times> rat Vec2 \<Rightarrow> bool" where
  "on_segment pt e = (case e of (a, b) \<Rightarrow>
     cross a b pt = 0
     \<and> min (Vec2.X a) (Vec2.X b) \<le> Vec2.X pt \<and> Vec2.X pt \<le> max (Vec2.X a) (Vec2.X b)
     \<and> min (Vec2.Y a) (Vec2.Y b) \<le> Vec2.Y pt \<and> Vec2.Y pt \<le> max (Vec2.Y a) (Vec2.Y b))"

definition ray_crosses :: "rat Vec2 \<Rightarrow> rat Vec2 \<times> rat Vec2 \<Rightarrow> bool" where
  "ray_crosses pt e = (case e of (a, b) \<Rightarrow>
     (Vec2.Y a > Vec2.Y pt) \<noteq> (Vec2.Y b > Vec2.Y pt)
     \<and> Vec2.X pt < (Vec2.X b - Vec2.X a) * (Vec2.Y pt - Vec2.Y a) / (Vec2.Y b - Vec2.Y a) + Vec2.X a)"

definition ideal_Contains :: "rat Polygon \<Rightarrow> rat Vec2 \<Rightarrow> bool \<Rightarrow> bool" where
  "ideal_Contains p pt boundaryInclusive =
     (if length p < 3 then False
      else if list_ex (on_segment pt) (edges p) then boundaryInclusive
      else odd (length (filter (ray_crosses pt) (edges p))))"

definition ideal_Orientation :: "rat Polygon \<Rightarrow> rat" where
  "ideal_Orientation p =
     sum_list (map (\<lambda>(a, b). Vec2.X a * Vec2.Y b - Vec2.X b * Vec2.Y a) (edges p))"

definition ideal_WrapIndex :: "rat Polygon \<Rightarrow> int \<Rightarrow> int" where
  "ideal_WrapIndex p i = i mod int (length p)"

definition ideal_IsConcaveAt :: "rat Polygon \<Rightarrow> nat \<Rightarrow> bool" where
  "ideal_IsConcaveAt p i =
     (let prev = p ! nat (ideal_WrapIndex p (int i - 1));
          next = p ! nat (ideal_WrapIndex p (int i + 1))
      in cross prev (p ! i) next * ideal_Orientation p < 0)"

definition ideal_IsCrossedBy :: "rat Polygon \<Rightarrow> rat LineSeg \<Rightarrow> bool" where
  "ideal_IsCrossedBy p s =
     list_ex (\<lambda>(a, b). cross a b (segA s) * cross a b (segB s) < 0
                      \<and> cross (segA s) (segB s) a * cross (segA s) (segB s) b < 0) (edges p)"

definition ideal_SetContains :: "rat PolygonSet \<Rightarrow> rat Vec2 \<Rightarrow> bool" where
  "ideal_SetContains ps pt = odd (length (filter (\<lambda>p. ideal_Contains p pt True) ps))"

definition sqdist :: "rat Vec2 \<Rightarrow> rat Vec2 \<Rightarrow> rat" where
  "sqdist a b = (Vec2.X a - Vec2.X b) * (Vec2.X a - Vec2.X b)
              + (Vec2.Y a - Vec2.Y b) * (Vec2.Y a - Vec2.Y b)"

definition closest_on :: "rat Vec2 \<Rightarrow> rat Vec2 \<times> rat Vec2 \<Rightarrow> rat Vec2" where
  "closest_on pt e = (case e of (a, b) \<Rightarrow>
     if sqdist a b = 0 then a
     else (let t = ((Vec2.X pt - Vec2.X a) * (Vec2.X b - Vec2.X a)
                    + (Vec2.Y pt - Vec2.Y a) * (Vec2.Y b - Vec2.Y a)) / sqdist a b;
               t = max 0 (min 1 t)
           in vec (Vec2.X a + t * (Vec2.X b - Vec2.X a)) (Vec2.Y a + t * (Vec2.Y b - Vec2.Y a))))"

definition ideal_ClosestPt :: "rat PolygonSet \<Rightarrow> rat Vec2 \<Rightarrow> rat Vec2" where
  "ideal_ClosestPt ps pt =
     (case map (closest_on pt) (concat (map edges ps)) of
        [] \<Rightarrow> pt
      | c # cs \<Rightarrow> fold (\<lambda>q best. if sqdist q pt < sqdist best pt then q else best) cs c)"

definition ideal_Middle :: "rat LineSeg \<Rightarrow> rat Vec2" where
  "ideal_Middle s = vec ((Vec2.X (segA s) + Vec2.X (segB s)) / 2)
                        ((Vec2.Y (segA s) + Vec2.Y (segB s)) / 2)"

fun simple_paths :: "nat \<Rightarrow> 'd graph \<Rightarrow> 'd Point list \<Rightarrow> 'd Point \<Rightarrow> 'd Point \<Rightarrow> 'd Point list list" where
  "simple_paths 0 g seen n goal = []"
| "simple_paths (Suc k) g seen n goal =
     (if n = goal then [[n]]
      else concat (map (\<lambda>m. if List.member (n # seen) m then []
                             else map ((#) n) (simple_paths k g (n # seen) m goal))
                       (lookup g n)))"

fun path_cost :: "('d Point \<Rightarrow> 'd Point \<Rightarrow> rat) \<Rightarrow> 'd Point list \<Rightarrow> rat" where
  "path_cost d (a # b # rest) = d a b + path_cost d (b # rest)"
| "path_cost d _ = 0"

definition ideal_FindPath ::
  "rat graph \<Rightarrow> rat Point \<Rightarrow> rat Point \<Rightarrow> (rat Point \<Rightarrow> rat Point \<Rightarrow> rat) \<Rightarrow>
     (rat Point \<Rightarrow> rat Point \<Rightarrow> rat) \<Rightarrow> rat Point list option" where
  "ideal_FindPath g start dest d heur =
     (case simple_paths 16 g [] start dest of
        [] \<Rightarrow> None
      | p # ps \<Rightarrow> Some (fold (\<lambda>q best. if path_cost d q < path_cost d best then q else best) ps p))"

definition ideal :: "(rat, rat) env" where
  "ideal = \<lparr>float32 = (\<lambda>x. x), float64 = (\<lambda>x. x), int_float64 = of_int,
     math_Round = go_Round, math_Sqrt = ideal_Sqrt, margin = 2 / 1000, margin32 = 2 / 1000,
     Vec2_Add = ideal_Add, Vec2_Sub = ideal_Sub, Vec2_Mul = ideal_Mul, Vec2_Norm = ideal_Norm,
     Vec2_Len = ideal_Len, Vec2_NearEq = ideal_NearEq,
     Polygon_Contains = ideal_Contains, Polygon_IsConcaveAt = ideal_IsConcaveAt,
     Polygon_IsCrossedBy = ideal_IsCrossedBy, Polygon_Orientation = ideal_Orientation,
     Polygon_WrapIndex = ideal_WrapIndex, PolygonSet_Contains = ideal_SetContains,
     PolygonSet_ClosestPt = ideal_ClosestPt, LineSeg_Middle = ideal_Middle,
     astar_FindPath = ideal_FindPath\<rparr>"

text \<open>The polygons of the examples: an L-shaped area, and the U-shaped one of the tests.\<close>

definition polygonL :: "rat Point list list" where
  "polygonL = [[Pt 0 0, Pt 20 0, Pt 20 10, Pt 10 10, Pt 10 20, Pt 0 20]]"

definition psL :: "rat PolygonSet" where
  "psL = [[vec 0 0, vec 20 0, vec 20 10, vec 10 10, vec 10 20, vec 0 20]]"

definition polygonU :: "rat Point list list" where
  "polygonU = [[Pt 0 0, Pt 10 0, Pt 10 10, Pt 20 10, Pt 20 0, Pt 30 0, Pt 30 20, Pt 0 20]]"

definition psU :: "rat PolygonSet" where
  "psU = [[vec 0 0, vec 10 0, vec 10 10, vec 20 10, vec 20 0, vec 30 0, vec 30 20, vec 0 20]]"


text \<open>A square area with a triangle inside it whose first vertex lies on the square's edge.\<close>

definition psT :: "rat PolygonSet" where
  "psT = [[vec 0 0, vec 40 0, vec 40 40, vec 0 40], [vec 0 20, vec 10 10, vec 10 30]]"

text \<open>
  The pathfinder that \<^verbatim>\<open>NewPathfinder\<close> builds for the U-shaped area in an empty store,
  with its cached graph \<open>gcU\<close> at address 0; the graph \<open>gU1\<close> that a query from (5,5) to
  (25,15) extends it to; and the graphs \<open>gD1\<close> and \<open>gD0\<close> that the incremental extension
  and the full rebuild produce for a query from (5,5) to (5,15).
\<close>

definition gcU :: "rat graph" where
  "gcU = [Pt 10 10 \<mapsto> [Pt 20 10], Pt 20 10 \<mapsto> [Pt 10 10]]"

definition pfU :: "(rat, rat) Pathfinder" where
  "pfU = \<lparr>Pathfinder.polygons = polygonU, Pathfinder.polygonSet = psU,
           Pathfinder.concaveVertices = [Pt 10 10, Pt 20 10], cachedGraph = 0\<rparr>"

definition gU1 :: "rat graph" where
  "gU1 = [Pt 10 10 \<mapsto> [Pt 20 10, Pt 5 5, Pt 25 15],
          Pt 20 10 \<mapsto> [Pt 10 10, Pt 25 15],
          Pt 5 5 \<mapsto> [Pt 10 10],
          Pt 25 15 \<mapsto> [Pt 10 10, Pt 20 10]]"

definition gD1 :: "rat graph" where
  "gD1 = [Pt 10 10 \<mapsto> [Pt 20 10, Pt 5 5, Pt 5 15],
          Pt 20 10 \<mapsto> [Pt 10 10, Pt 5 15],
          Pt 5 5 \<mapsto> [Pt 10 10, Pt 5 15, Pt 5 15, Pt 5 15],
          Pt 5 15 \<mapsto> [Pt 5 5, Pt 10 10, Pt 20 10, Pt 5 5, Pt 5 5]]"

definition gD0 :: "rat graph" where
  "gD0 = [Pt 10 10 \<mapsto> [Pt 20 10, Pt 5 5, Pt 5 15],
          Pt 20 10 \<mapsto> [Pt 10 10, Pt 5 15],
          Pt 5 5 \<mapsto> [Pt 10 10, Pt 5 15],
          Pt 5 15 \<mapsto> [Pt 10 10, Pt 20 10, Pt 5 5]]"

text \<open>
  The same for the revision of src/pathfinder.go, whose \<^verbatim>\<open>margin\<close> is 0.001.
\<close>

definition ideal0 :: "(rat, rat) env" where
  "ideal0 = ideal\<lparr>margin := 1 / 1000, margin32 := 1 / 1000\<rparr>"

definition pfU0 :: "(rat, rat) Pathfinder0" where
  "pfU0 = \<lparr>Pathfinder0.polygons = polygonU, Pathfinder0.polygonSet = psU,
            Pathfinder0.concaveVertices = [Pt 10 10, Pt 20 10],
            Pathfinder0.visibilityGraph = None\<rparr>"

section \<open>The claims' own words\<close>

text \<open>
  The reflex vertex extraction as the spec words it (section 4.1), with the flag of the
  containment test as an argument: polygon \<open>i\<close> is a hole when an odd number of the other
  polygons contain its first vertex; the concave vertices of an area and the convex
  vertices of a hole are kept, in the order of the polygons.
\<close>

definition reflexVertices_by :: "('d, 's) env \<Rightarrow> bool \<Rightarrow> 's PolygonSet \<Rightarrow> 'd Point list" where
  "reflexVertices_by E boundaryInclusive ps =
     concat (map (\<lambda>i.
        (let p = ps ! i;
             hole = odd (length (filter
                      (\<lambda>j. j \<noteq> i \<and> Polygon_Contains E (ps ! j) (p ! 0) boundaryInclusive)
                      [0..<length ps]))
         in map (\<lambda>k. v2p E (p ! k))
              (filter (\<lambda>k. if hole then \<not> Polygon_IsConcaveAt E p k
                            else Polygon_IsConcaveAt E p k)
                 [0..<length p])))
        [0..<length ps])"

text \<open>
  The displaced point of the boundary offset as the spec words it (section 4.4), for
  vertex \<open>i\<close> of polygon \<open>k\<close>: the unit directions of the two edges at the vertex, their
  outward normals by the sign of the polygon's orientation, the sum of the normals (the
  first normal alone when the sum has length zero), normalized and scaled by the margin;
  added to the vertex of a hole, subtracted from the vertex of an area.
\<close>

definition displacedVertex ::
  "('d, 's::{zero,ord,uminus}) env \<Rightarrow> 's PolygonSet \<Rightarrow> nat \<Rightarrow> nat \<Rightarrow> 's Vec2" where
  "displacedVertex E ps k i =
     (let p = ps ! k;
          pv = p ! i;
          prev = p ! nat (Polygon_WrapIndex E p (int i - 1));
          next = p ! nat (Polygon_WrapIndex E p (int i + 1));
          e1 = Vec2_Norm E (Vec2_Sub E pv prev);
          e2 = Vec2_Norm E (Vec2_Sub E next pv);
          ccw = (Polygon_Orientation E p > 0);
          n1 = (if ccw then \<lparr>Vec2.X = Vec2.Y e1, Vec2.Y = - Vec2.X e1\<rparr>
                else \<lparr>Vec2.X = - Vec2.Y e1, Vec2.Y = Vec2.X e1\<rparr>);
          n2 = (if ccw then \<lparr>Vec2.X = Vec2.Y e2, Vec2.Y = - Vec2.X e2\<rparr>
                else \<lparr>Vec2.X = - Vec2.Y e2, Vec2.Y = Vec2.X e2\<rparr>);
          b = Vec2_Add E n1 n2;
          b = (if Vec2_Len E b = 0 then n1 else b);
          bis = Vec2_Mul E (Vec2_Norm E b) (margin32 E);
          hole = odd (length (filter
                   (\<lambda>j. j \<noteq> k \<and> Polygon_Contains E (ps ! j) (p ! 0) False) [0..<length ps]))
      in if hole then Vec2_Add E pv bis else Vec2_Sub E pv bis)"

text \<open>
  The vertices near-equal to a waypoint, as pairs of polygon index and vertex index, in
  the order in which \<^verbatim>\<open>offsetFromBoundary\<close> meets them.
\<close>

definition nearVertices :: "('d, 's) env \<Rightarrow> 's PolygonSet \<Rightarrow> 'd Point \<Rightarrow> (nat \<times> nat) list" where
  "nearVertices E ps pt =
     concat (map (\<lambda>k. map (Pair k)
                         (filter (\<lambda>i. Vec2_NearEq E (ps ! k ! i) (p2v E pt)) [0..<length (ps ! k)]))
                 [0..<length ps])"

text \<open>
  The boundary offset as claim C5 words it, for a waypoint near-equal to vertex \<open>i\<close> of
  polygon \<open>k\<close>: the displaced point if the polygon set contains it, otherwise the waypoint
  unchanged.
\<close>

definition offset_claimed ::
  "('d, 's::{zero,ord,uminus}) env \<Rightarrow> 's PolygonSet \<Rightarrow> nat \<Rightarrow> nat \<Rightarrow> 'd Point \<Rightarrow> 'd Point" where
  "offset_claimed E ps k i pt =
     (let moved = displacedVertex E ps k i
      in if PolygonSet_Contains E ps moved
         then \<lparr>Point.X = float64 E (Vec2.X moved), Point.Y = float64 E (Vec2.Y moved)\<rparr>
         else pt)"

section \<open>The contents of the graphs\<close>

text \<open>
  What the graph-building functions leave in the map they allocate, as functions on the
  map alone. The theorems of the next sections show that the functions above, which work
  on the store, compute exactly these.
\<close>

definition linkG :: "'d Point \<Rightarrow> 'd Point \<Rightarrow> 'd graph \<Rightarrow> 'd graph" where
  "linkG a b g = g(a \<mapsto> lookup g a @ [b])"

definition visG :: "('d, 's) env \<Rightarrow> 's PolygonSet \<Rightarrow> 'd Point list \<Rightarrow> 'd graph" where
  "visG E ps points =
     fold (\<lambda>(i, a).
             fold (\<lambda>(j, b) g.
                     if i = j then g
                     else if inLineOfSight E ps (p2v E a) (p2v E b) then linkG a b g
                     else g)
                  (List.enumerate 0 points))
          (List.enumerate 0 points) Map.empty"

definition copyG :: "'d graph \<Rightarrow> 'd Point list \<Rightarrow> 'd graph" where
  "copyG src ks =
     fold (\<lambda>n g. case src n of
                    None \<Rightarrow> g
                  | Some adj \<Rightarrow> if length adj > 0 then g(n \<mapsto> adj) else g)
          ks Map.empty"

definition prepG ::
  "('d, 's) env \<Rightarrow> 's PolygonSet \<Rightarrow> 'd Point list \<Rightarrow> 'd Point \<Rightarrow> 'd Point \<Rightarrow> 'd graph \<Rightarrow> 'd graph" where
  "prepG E ps cv start dest g =
     (let los = (\<lambda>a b. inLineOfSight E ps (p2v E a) (p2v E b));
          g = g(start \<mapsto> lookup g start);
          g = g(dest \<mapsto> lookup g dest);
          g = fold (\<lambda>b g.
                 (let g = (if b \<noteq> start \<and> los start b then linkG start b g else g)
                  in if b \<noteq> start \<and> los b start then linkG b start g else g))
               (cv @ [dest]) g;
          g = fold (\<lambda>b g.
                 (let g = (if b \<noteq> dest \<and> los dest b then linkG dest b g else g)
                  in if b \<noteq> dest \<and> los b dest then linkG b dest g else g))
               (cv @ [start]) g
      in if los start dest then linkG dest start (linkG start dest g) else g)"

text \<open>The directed edges of a graph.\<close>

definition edges_of :: "'d graph \<Rightarrow> ('d Point \<times> 'd Point) set" where
  "edges_of g = {(a, b). b \<in> set (lookup g a)}"

section \<open>The states of a pathfinder\<close>

text \<open>
  The pathfinders built from a polygon set, with the store they live in: the one
  \<^verbatim>\<open>NewPathfinder\<close> returns, the one a call of \<^verbatim>\<open>Path\<close> leaves behind (the runtime
  choosing some order \<open>ks\<close> of the keys of the cached graph for the loop of \<^verbatim>\<open>copyGraph\<close>),
  and the same pathfinder after the rest of the program has allocated maps of its own.
  \<^verbatim>\<open>cachedGraph\<close> is an unexported field that no function hands out, so the rest of the
  program cannot write to the map it refers to.
\<close>

inductive reachable ::
  "('d::{plus,minus,times}, 's::{zero,ord,uminus}) env \<Rightarrow> 'd Point list list \<Rightarrow>
     ('d, 's) Pathfinder \<times> 'd heap \<Rightarrow> bool"
  for E :: "('d::{plus,minus,times}, 's::{zero,ord,uminus}) env" and polys :: "'d Point list list"
where
  constructed: "NewPathfinder E polys h0 = Some (p, h) \<Longrightarrow> reachable E polys (p, h)"
| queried: "reachable E polys (p, h) \<Longrightarrow> set ks = dom (h ! cachedGraph p) \<Longrightarrow>
     Path E p start dest ks h = Some (r, p', h') \<Longrightarrow> reachable E polys (p', h')"
| allocated: "reachable E polys (p, h) \<Longrightarrow> reachable E polys (p, h @ hs)"

inductive reachable0 ::
  "('d::{plus,minus,times}, 's::{zero,uminus}) env \<Rightarrow> 'd Point list list \<Rightarrow>
     ('d, 's) Pathfinder0 \<Rightarrow> bool"
  for E :: "('d::{plus,minus,times}, 's::{zero,uminus}) env" and polys :: "'d Point list list"
where
  constructed0: "NewPathfinder0 E polys = Some p \<Longrightarrow> reachable0 E polys p"
| queried0: "reachable0 E polys p \<Longrightarrow> Path0 E p start dest h = Some (r, p', h') \<Longrightarrow>
     reachable0 E polys p'"
section \<open>Loops over indexed slices\<close>

lemma enumerate_as_map: "List.enumerate 0 xs = map (\<lambda>i. (i, xs ! i)) [0..<length xs]"
  by (rule nth_equalityI) (simp_all add: nth_enumerate_eq)

lemma index_nth: "i < length xs \<Longrightarrow> index xs (int i) = Some (xs ! i)"
  by (simp add: index_def)

lemma index_0: "xs \<noteq> [] \<Longrightarrow> index xs 0 = Some (xs ! 0)"
  by (simp add: index_def)

section \<open>Graphs in the store\<close>

lemma assign_at: "assign g n adj h = h[g := (h ! g)(n \<mapsto> adj)]"
  by (simp add: assign_def)

lemma link_at: "link g a b h = h[g := linkG a b (h ! g)]"
  by (simp add: link_def assign_def linkG_def)

lemma fold_at:
  assumes "\<And>x h. g < length h \<Longrightarrow> F x h = h[g := f x (h ! g)]"
    and "g < length h"
  shows "fold F xs h = h[g := fold f xs (h ! g)]"
  using assms(2)
proof (induction xs arbitrary: h)
  case Nil
  then show ?case by simp
next
  case (Cons x xs)
  have "fold F (x # xs) h = fold F xs (h[g := f x (h ! g)])"
    using assms(1) [OF Cons.prems] by simp
  also have "\<dots> = (h[g := f x (h ! g)])[g := fold f xs ((h[g := f x (h ! g)]) ! g)]"
    using Cons.prems by (intro Cons.IH) simp
  finally show ?case using Cons.prems by simp
qed

lemma visibilityGraph_eq:
  "visibilityGraph E ps points h = (length h, h @ [visG E ps points])"
proof -
  let ?inner = "\<lambda>i a. (\<lambda>(j, b) g.
                     if i = j then g
                     else if inLineOfSight E ps (p2v E a) (p2v E b) then linkG a b g
                     else g)"
  let ?g = "length h"
  have inner: "fold (\<lambda>(j, b) h'.
                          if i = j then h'
                          else if inLineOfSight E ps (p2v E a) (p2v E b) then link ?g a b h'
                          else h') xs h'
               = h'[?g := fold (?inner i a) xs (h' ! ?g)]" if "?g < length h'" for i a xs h'
    by (rule fold_at [OF _ that]) (auto simp: link_at)
  have outer: "fold (\<lambda>(i, a).
                  fold (\<lambda>(j, b) h'.
                          if i = j then h'
                          else if inLineOfSight E ps (p2v E a) (p2v E b) then link ?g a b h'
                          else h')
                       (List.enumerate 0 points)) xs h'
               = h'[?g := fold (\<lambda>(i, a). fold (?inner i a) (List.enumerate 0 points)) xs (h' ! ?g)]"
    if "?g < length h'" for xs h'
    by (rule fold_at [OF _ that]) (auto simp: inner)
  show ?thesis
    by (simp add: visibilityGraph_def make_graph_def outer visG_def)
qed

lemma copyGraph_eq:
  assumes "src < length h"
  shows "copyGraph src ks h = (length h, h @ [copyG (h ! src) ks])"
proof -
  let ?g = "length h"
  let ?S = "h ! src"
  have step: "fold (\<lambda>n h'. case (h' ! src) n of
                          None \<Rightarrow> h'
                        | Some adj \<Rightarrow> if length adj > 0 then assign ?g n ([] @ adj) h' else h') ks h'
        = h'[?g := fold (\<lambda>n g. case ?S n of
                    None \<Rightarrow> g
                  | Some adj \<Rightarrow> if length adj > 0 then g(n \<mapsto> adj) else g) ks (h' ! ?g)]"
    if "?g < length h'" "h' ! src = ?S" for h'
    using that
  proof (induction ks arbitrary: h')
    case Nil
    then show ?case by simp
  next
    case (Cons n ks)
    let ?G = "(case ?S n of None \<Rightarrow> h' ! ?g
                | Some adj \<Rightarrow> if length adj > 0 then (h' ! ?g)(n \<mapsto> adj) else h' ! ?g)"
    have one: "(case (h' ! src) n of
                          None \<Rightarrow> h'
                        | Some adj \<Rightarrow> if length adj > 0 then assign ?g n ([] @ adj) h' else h')
               = h'[?g := ?G]"
      using Cons.prems by (auto simp: assign_at split: option.splits)
    have "src \<noteq> ?g" using assms by simp
    with Cons.prems have pre: "?g < length (h'[?g := ?G])" "(h'[?g := ?G]) ! src = ?S"
      by simp_all
    show ?case
      using Cons.IH [OF pre] Cons.prems(1)
      by (simp add: one split: option.splits)
  qed
  show ?thesis
    using assms by (simp add: copyGraph_def make_graph_def step copyG_def nth_append)
qed

lemma prepareVisibilityGraph_eq:
  assumes "cachedGraph p < length h"
  shows "prepareVisibilityGraph E p start dest ks h
         = (length h, h @ [prepG E (Pathfinder.polygonSet p) (Pathfinder.concaveVertices p)
                             start dest (copyG (h ! cachedGraph p) ks)])"
proof -
  let ?g = "length h"
  let ?cv = "Pathfinder.concaveVertices p"
  let ?los = "\<lambda>a b. inLineOfSight E (Pathfinder.polygonSet p) (p2v E a) (p2v E b)"
  let ?F = "\<lambda>s b h.
                 (let h = (if b \<noteq> s \<and> ?los s b then link ?g s b h else h)
                  in if b \<noteq> s \<and> ?los b s then link ?g b s h else h)"
  let ?f = "\<lambda>s b g.
                 (let g = (if b \<noteq> s \<and> ?los s b then linkG s b g else g)
                  in if b \<noteq> s \<and> ?los b s then linkG b s g else g)"
  have loop: "fold (?F s) xs h' = h'[?g := fold (?f s) xs (h' ! ?g)]"
    if "?g < length h'" for s xs h'
    by (rule fold_at [OF _ that]) (auto simp: link_at Let_def)
  define C0 where "C0 = copyG (h ! cachedGraph p) ks"
  define C1 where "C1 = C0(start \<mapsto> lookup C0 start)"
  define C2 where "C2 = C1(dest \<mapsto> lookup C1 dest)"
  define C3 where "C3 = fold (?f start) (?cv @ [dest]) C2"
  define C4 where "C4 = fold (?f dest) (?cv @ [start]) C3"
  define C5 where "C5 = (if ?los start dest then linkG dest start (linkG start dest C4) else C4)"
  define h1 where "h1 = h @ [C0]"
  define h2 where "h2 = assign ?g start (lookup (h1 ! ?g) start) h1"
  define h3 where "h3 = assign ?g dest (lookup (h2 ! ?g) dest) h2"
  define h4 where "h4 = fold (?F start) (([] @ ?cv) @ [dest]) h3"
  define h5 where "h5 = fold (?F dest) (?cv @ [start]) h4"
  define h6 where "h6 = (if ?los start dest then link ?g dest start (link ?g start dest h5) else h5)"
  have "prepareVisibilityGraph E p start dest ks h = (?g, h6)"
    unfolding prepareVisibilityGraph_def copyGraph_eq [OF assms] h6_def h5_def h4_def h3_def h2_def
      h1_def C0_def
    by (simp only: Let_def prod.case)
  moreover have e2: "h2 = h @ [C1]"
    by (simp add: h2_def h1_def assign_at C1_def)
  moreover have e3: "h3 = h @ [C2]"
    by (simp add: h3_def e2 assign_at C2_def)
  moreover have e4: "h4 = h @ [C3]"
    unfolding h4_def by (subst loop) (simp_all add: e3 C3_def)
  moreover have e5: "h5 = h @ [C4]"
    unfolding h5_def by (subst loop) (simp_all add: e4 C4_def)
  moreover have e6: "h6 = h @ [C5]"
    by (simp add: h6_def e5 link_at C5_def)
  moreover have "C5 = prepG E (Pathfinder.polygonSet p) ?cv start dest C0"
    unfolding C5_def C4_def C3_def C2_def C1_def prepG_def
    by (simp only: Let_def)
  ultimately show ?thesis
    by (simp add: C0_def)
qed

section \<open>Line of sight\<close>

text \<open>
  C1. For every polygon set and every two points, \<^verbatim>\<open>inLineOfSight\<close> reports the points
  visible from each other if and only if no polygon of the set is crossed by the segment
  between them and the middle of the segment is contained in the polygon set.
\<close>

theorem inLineOfSight_iff:
  "inLineOfSight E ps a b \<longleftrightarrow>
     (\<forall>p \<in> set ps. \<not> Polygon_IsCrossedBy E p \<lparr>segA = a, segB = b\<rparr>)
     \<and> PolygonSet_Contains E ps (LineSeg_Middle E \<lparr>segA = a, segB = b\<rparr>)"
  by (auto simp: inLineOfSight_def Let_def find_None_iff split: option.splits dest: find_Some_iff[THEN iffD1])

lemma psL_sight_corner: "inLineOfSight ideal psL (vec 18 8) (vec 10 10)"
  by code_simp

theorem inLineOfSight_iff_witness:
  "inLineOfSight ideal psL (vec 18 8) (vec 10 10)
   \<and> \<not> Polygon_IsCrossedBy ideal (hd psL) \<lparr>segA = vec 18 8, segB = vec 10 10\<rparr>
   \<and> PolygonSet_Contains ideal psL (LineSeg_Middle ideal \<lparr>segA = vec 18 8, segB = vec 10 10\<rparr>)"
  using inLineOfSight_iff [of ideal psL "vec 18 8" "vec 10 10"] psL_sight_corner
  by (simp add: psL_def)

section \<open>The containment-level gate\<close>

text \<open>
  C4. For every polygon set and every start and dest: if the containment level of start
  (the number of polygons that contain it, boundary included) differs from that of dest,
  \<^verbatim>\<open>Path\<close> returns nil. It does so in both revisions, whatever the closest-point query
  and the search would compute, and it leaves the pathfinder and the store as they were:
  no destination is clamped, no graph is allocated or linked, no search is run.
\<close>

theorem Path_level_gate:
  "(containmentLevel E (Pathfinder.polygonSet p) start
      \<noteq> containmentLevel E (Pathfinder.polygonSet p) dest
    \<longrightarrow> Path E p start dest ks h = Some (None, p, h))
   \<and> (containmentLevel E (Pathfinder0.polygonSet q) start
        \<noteq> containmentLevel E (Pathfinder0.polygonSet q) dest
      \<longrightarrow> Path0 E q start dest h = Some (None, q, h))"
  by (simp add: Path_def Path0_def)

lemma psU_levels: "containmentLevel ideal psU (Pt 5 5) = 1" "containmentLevel ideal psU (Pt 15 5) = 0"
  by code_simp+

theorem Path_level_gate_witness:
  "containmentLevel ideal psU (Pt 5 5) \<noteq> containmentLevel ideal psU (Pt 15 5)
   \<and> Path ideal \<lparr>Pathfinder.polygons = polygonU, Pathfinder.polygonSet = psU,
                  Pathfinder.concaveVertices = [Pt 10 10, Pt 20 10], cachedGraph = 0\<rparr>
        (Pt 5 5) (Pt 15 5) [] [Map.empty]
      = Some (None, \<lparr>Pathfinder.polygons = polygonU, Pathfinder.polygonSet = psU,
                  Pathfinder.concaveVertices = [Pt 10 10, Pt 20 10], cachedGraph = 0\<rparr>, [Map.empty])
   \<and> Path0 ideal \<lparr>Pathfinder0.polygons = polygonU, Pathfinder0.polygonSet = psU,
                  Pathfinder0.concaveVertices = [Pt 10 10, Pt 20 10],
                  Pathfinder0.visibilityGraph = None\<rparr>
        (Pt 5 5) (Pt 15 5) [Map.empty]
      = Some (None, \<lparr>Pathfinder0.polygons = polygonU, Pathfinder0.polygonSet = psU,
                  Pathfinder0.concaveVertices = [Pt 10 10, Pt 20 10],
                  Pathfinder0.visibilityGraph = None\<rparr>, [Map.empty])"
  using Path_level_gate [of ideal "\<lparr>Pathfinder.polygons = polygonU, Pathfinder.polygonSet = psU,
                  Pathfinder.concaveVertices = [Pt 10 10, Pt 20 10], cachedGraph = 0\<rparr>"
        "Pt 5 5" "Pt 15 5" "[]" "[Map.empty]"
        "\<lparr>Pathfinder0.polygons = polygonU, Pathfinder0.polygonSet = psU,
                  Pathfinder0.concaveVertices = [Pt 10 10, Pt 20 10],
                  Pathfinder0.visibilityGraph = None\<rparr>"]
  by (simp add: psU_levels)

section \<open>Reflex vertex extraction\<close>

lemma isHole_fold:
  assumes "index ps (int i) = Some q" "index q 0 = Some v"
  shows "fold (\<lambda>j r. do {
             hole \<leftarrow> r;
             if i \<noteq> j then do {
               psi \<leftarrow> index ps (int i);
               v \<leftarrow> index psi 0;
               Some (if Polygon_Contains E (ps ! j) v False then \<not> hole else hole)
             } else Some hole
           }) js (Some b)
         = Some (b \<noteq> odd (length (filter (\<lambda>j. j \<noteq> i \<and> Polygon_Contains E (ps ! j) v False) js)))"
  using assms by (induction js arbitrary: b) auto

lemma isHole_nonempty:
  assumes "i < length ps" "ps ! i \<noteq> []"
  shows "isHole E ps i
         = Some (odd (length (filter (\<lambda>j. j \<noteq> i \<and> Polygon_Contains E (ps ! j) (ps ! i ! 0) False)
                                [0..<length ps])))"
  using isHole_fold [OF index_nth [OF assms(1)] index_0 [OF assms(2)], of E "[0..<length ps]" False]
  by (simp add: isHole_def enumerate_as_map fold_map comp_def)

lemma verticesOfType_fold:
  "fold (\<lambda>i vs. (let isConcave = Polygon_IsConcaveAt E p i
              in if (t = concave \<and> isConcave) \<or> (t = convex \<and> \<not> isConcave)
                 then vs @ [v2p E (p ! i)] else vs)) ks acc
   = acc @ map (\<lambda>k. v2p E (p ! k)) (filter (\<lambda>k. Polygon_IsConcaveAt E p k = (t = concave)) ks)"
  by (induction ks arbitrary: acc) (cases t; auto simp: Let_def)+

lemma verticesOfType_eq:
  "verticesOfType E p t
   = map (\<lambda>k. v2p E (p ! k)) (filter (\<lambda>k. Polygon_IsConcaveAt E p k = (t = concave)) [0..<length p])"
  using verticesOfType_fold [of E p t "[0..<length p]" "[]"]
  by (simp add: verticesOfType_def enumerate_as_map fold_map comp_def)

lemma concaveVertices_fold:
  assumes "\<forall>i \<in> set js. isHole E ps i = Some (H i)"
  shows "fold (\<lambda>i r. do {
             vs \<leftarrow> r;
             hole \<leftarrow> isHole E ps i;
             Some (vs @ verticesOfType E (ps ! i) (if hole then convex else concave))
           }) js (Some acc)
         = Some (acc @ concat (map (\<lambda>i. verticesOfType E (ps ! i) (if H i then convex else concave)) js))"
  using assms by (induction js arbitrary: acc) auto

text \<open>
  C3, as the code has it. For every polygon set without an empty polygon, the extraction
  makes polygon \<open>i\<close> a hole exactly when an odd number of the other polygons contain its
  first vertex under the containment test with the flag \<^verbatim>\<open>false\<close> (a vertex on another
  polygon's boundary does not count), keeps the concave vertices of each area polygon and
  the convex vertices of each hole polygon, each converted by \<^verbatim>\<open>v2p\<close>, and concatenates
  them in the order of the polygons.
\<close>

theorem concaveVertices_eq:
  assumes "\<forall>p \<in> set ps. p \<noteq> []"
  shows "concaveVertices E ps = Some (reflexVertices_by E False ps)"
proof -
  let ?H = "\<lambda>i. odd (length (filter (\<lambda>j. j \<noteq> i \<and> Polygon_Contains E (ps ! j) (ps ! i ! 0) False)
                                [0..<length ps]))"
  have "\<forall>i \<in> set [0..<length ps]. isHole E ps i = Some (?H i)"
    using assms by (simp add: isHole_nonempty)
  from concaveVertices_fold [OF this, of "[]"]
  have "concaveVertices E ps
        = Some (concat (map (\<lambda>i. verticesOfType E (ps ! i) (if ?H i then convex else concave))
                            [0..<length ps]))"
    by (simp add: concaveVertices_def enumerate_as_map fold_map comp_def)
  also have "(\<lambda>i. verticesOfType E (ps ! i) (if ?H i then convex else concave))
             = (\<lambda>i. let p = ps ! i; hole = ?H i
                 in map (\<lambda>k. v2p E (p ! k))
                      (filter (\<lambda>k. if hole then \<not> Polygon_IsConcaveAt E p k
                                    else Polygon_IsConcaveAt E p k) [0..<length p]))"
    by (rule ext) (simp add: verticesOfType_eq Let_def)
  finally show ?thesis
    by (simp add: reflexVertices_by_def)
qed

lemma psT_exclusive: "reflexVertices_by ideal False psT = []"
  by code_simp

theorem concaveVertices_eq_witness:
  "psT ! 0 \<noteq> [] \<and> psT ! 1 \<noteq> [] \<and> concaveVertices ideal psT = Some []"
  using concaveVertices_eq [of psT ideal] by (simp add: psT_exclusive) (simp add: psT_def)

text \<open>
  C3 as the spec words it has the containment test boundary-inclusive. The triangle of
  \<open>psT\<close> starts on the square's edge: with the boundary included it would be a hole and
  its three convex vertices would be kept; the code keeps none.
\<close>

lemma psT_code: "concaveVertices ideal psT = Some []"
  by code_simp

lemma psT_inclusive: "reflexVertices_by ideal True psT = [Pt 0 20, Pt 10 10, Pt 10 30]"
  by code_simp

theorem concaveVertices_inclusive_counterexample:
  "concaveVertices ideal psT \<noteq> Some (reflexVertices_by ideal True psT)"
  by (simp add: psT_code psT_inclusive)

section \<open>Boundary offset\<close>

lemma find_append_case:
  "find P (xs @ ys) = (case find P xs of None \<Rightarrow> find P ys | Some x \<Rightarrow> Some x)"
  by (induction xs) auto

lemma find_filter: "find P (filter Q xs) = find (\<lambda>x. Q x \<and> P x) xs"
  by (induction xs) auto

lemma find_map_Pair:
  "find (\<lambda>(k, i). P k i) (map (Pair k) xs) = map_option (Pair k) (find (P k) xs)"
  by (induction xs) auto

lemma isHole_Some:
  assumes "k < length ps" "ps ! k \<noteq> []" "isHole E ps k = Some hole"
  shows "hole = odd (length (filter (\<lambda>j. j \<noteq> k \<and> Polygon_Contains E (ps ! j) (ps ! k ! 0) False)
                                [0..<length ps]))"
  using isHole_nonempty [OF assms(1,2), of E] assms(3) by simp

lemma index_SomeD: "index xs j = Some x \<Longrightarrow> x = xs ! nat j"
  by (auto simp: index_def split: if_splits)

lemma index_in_range: "0 \<le> j \<Longrightarrow> j < int (length xs) \<Longrightarrow> index xs j = Some (xs ! nat j)"
  by (simp add: index_def)

lemma moved_by_bisector:
  assumes "bisector E (ps ! k) (Polygon_Orientation E (ps ! k)) i (ps ! k ! i) = Some bis"
  shows "displacedVertex E ps k i
         = (if odd (length (filter (\<lambda>j. j \<noteq> k \<and> Polygon_Contains E (ps ! j) (ps ! k ! 0) False)
                                [0..<length ps]))
            then Vec2_Add E (ps ! k ! i) bis else Vec2_Sub E (ps ! k ! i) bis)"
  using assms
  by (auto simp: bisector_def displacedVertex_def Let_def split: bind_splits if_splits
           dest!: index_SomeD)

lemma bisector_in_range:
  assumes "\<forall>j. 0 \<le> Polygon_WrapIndex E p j \<and> Polygon_WrapIndex E p j < int (length p)"
  shows "\<exists>bis. bisector E p orient i pv = Some bis"
  using assms by (simp add: bisector_def index_in_range Let_def split: prod.splits)


lemma offsetVertices_find:
  assumes rng: "\<forall>j. 0 \<le> Polygon_WrapIndex E (ps ! k) j
                    \<and> Polygon_WrapIndex E (ps ! k) j < int (length (ps ! k))"
    and hole: "hole = odd (length (filter
                 (\<lambda>j. j \<noteq> k \<and> Polygon_Contains E (ps ! j) (ps ! k ! 0) False) [0..<length ps]))"
  shows "offsetVertices E ps (ps ! k) (Polygon_Orientation E (ps ! k)) hole v
           (map (\<lambda>i. (i, ps ! k ! i)) js)
         = (case find (\<lambda>i. Vec2_NearEq E (ps ! k ! i) v
                            \<and> PolygonSet_Contains E ps (displacedVertex E ps k i)) js of
              None \<Rightarrow> Continue
            | Some i \<Rightarrow> Return (v2p E (displacedVertex E ps k i)))"
proof (induction js)
  case Nil
  show ?case by simp
next
  case (Cons i js)
  obtain bis where b: "bisector E (ps ! k) (Polygon_Orientation E (ps ! k)) i (ps ! k ! i) = Some bis"
    using bisector_in_range [OF rng] by blast
  have d: "displacedVertex E ps k i
           = (if hole then Vec2_Add E (ps ! k ! i) bis else Vec2_Sub E (ps ! k ! i) bis)"
    using moved_by_bisector [OF b] by (simp add: hole)
  show ?case
    using Cons.IH b by (cases hole) (simp_all add: Let_def d)
qed

lemma offsetVertices_Return:
  assumes hole: "hole = odd (length (filter
                 (\<lambda>j. j \<noteq> k \<and> Polygon_Contains E (ps ! j) (ps ! k ! 0) False) [0..<length ps]))"
    and "offsetVertices E ps (ps ! k) (Polygon_Orientation E (ps ! k)) hole v
           (map (\<lambda>i. (i, ps ! k ! i)) js) = Return r"
  shows "\<exists>i \<in> set js. Vec2_NearEq E (ps ! k ! i) v
            \<and> PolygonSet_Contains E ps (displacedVertex E ps k i)
            \<and> r = v2p E (displacedVertex E ps k i)"
  using assms(2)
proof (induction js)
  case Nil
  then show ?case by simp
next
  case (Cons i js)
  show ?case
  proof (cases "Vec2_NearEq E (ps ! k ! i) v")
    case False
    with Cons show ?thesis by simp
  next
    case True
    show ?thesis
    proof (cases "bisector E (ps ! k) (Polygon_Orientation E (ps ! k)) i (ps ! k ! i)")
      case None
      with True Cons.prems show ?thesis by simp
    next
      case (Some bis)
      have d: "displacedVertex E ps k i
           = (if hole then Vec2_Add E (ps ! k ! i) bis else Vec2_Sub E (ps ! k ! i) bis)"
        using moved_by_bisector [OF Some] by (simp add: hole)
      show ?thesis
      proof (cases "PolygonSet_Contains E ps (displacedVertex E ps k i)")
        case c: True
        with True Some Cons.prems d show ?thesis
          by (cases hole) (auto simp: Let_def split: if_splits)
      next
        case c: False
        with True Some Cons.prems d
        have "offsetVertices E ps (ps ! k) (Polygon_Orientation E (ps ! k)) hole v
                (map (\<lambda>i. (i, ps ! k ! i)) js) = Return r"
          by (cases hole) (auto simp: Let_def split: if_splits)
        from Cons.IH [OF this] show ?thesis by auto
      qed
    qed
  qed
qed

lemma offsetPolygons_find:
  assumes ne: "\<forall>p \<in> set ps. p \<noteq> []"
    and rng: "\<forall>p \<in> set ps. \<forall>j. 0 \<le> Polygon_WrapIndex E p j \<and> Polygon_WrapIndex E p j < int (length p)"
    and ks: "\<forall>k \<in> set ks. k < length ps"
  shows "offsetPolygons E ps v pt (map (\<lambda>k. (k, ps ! k)) ks)
         = Some (case find (\<lambda>(k, i). PolygonSet_Contains E ps (displacedVertex E ps k i))
                        (concat (map (\<lambda>k. map (Pair k)
                            (filter (\<lambda>i. Vec2_NearEq E (ps ! k ! i) v) [0..<length (ps ! k)])) ks)) of
                   None \<Rightarrow> pt
                 | Some (k, i) \<Rightarrow> v2p E (displacedVertex E ps k i))"
  using ks
proof (induction ks)
  case Nil
  show ?case by simp
next
  case (Cons k ks)
  let ?H = "odd (length (filter
                 (\<lambda>j. j \<noteq> k \<and> Polygon_Contains E (ps ! j) (ps ! k ! 0) False) [0..<length ps]))"
  from Cons.prems have k: "k < length ps" by simp
  with ne have nek: "ps ! k \<noteq> []" by simp
  have h: "isHole E ps k = Some ?H"
    by (rule isHole_nonempty [OF k nek])
  from k rng have r: "\<forall>j. 0 \<le> Polygon_WrapIndex E (ps ! k) j
                    \<and> Polygon_WrapIndex E (ps ! k) j < int (length (ps ! k))"
    by simp
  have inner: "offsetVertices E ps (ps ! k) (Polygon_Orientation E (ps ! k)) ?H v
                 (List.enumerate 0 (ps ! k))
         = (case find (\<lambda>i. Vec2_NearEq E (ps ! k ! i) v
                            \<and> PolygonSet_Contains E ps (displacedVertex E ps k i))
                   [0..<length (ps ! k)] of
              None \<Rightarrow> Continue
            | Some i \<Rightarrow> Return (v2p E (displacedVertex E ps k i)))"
    using offsetVertices_find [OF r refl, of v "[0..<length (ps ! k)]"]
    by (simp add: enumerate_as_map)
  from Cons have IH: "offsetPolygons E ps v pt (map (\<lambda>k. (k, ps ! k)) ks)
         = Some (case find (\<lambda>(k, i). PolygonSet_Contains E ps (displacedVertex E ps k i))
                        (concat (map (\<lambda>k. map (Pair k)
                            (filter (\<lambda>i. Vec2_NearEq E (ps ! k ! i) v) [0..<length (ps ! k)])) ks)) of
                   None \<Rightarrow> pt
                 | Some (k, i) \<Rightarrow> v2p E (displacedVertex E ps k i))"
    by simp
  show ?case
    by (simp add: h inner IH find_append_case find_map_Pair find_filter Let_def
             split: option.splits)
qed

lemma offsetFromBoundary_find:
  assumes "\<forall>p \<in> set ps. p \<noteq> []"
    and "\<forall>p \<in> set ps. \<forall>j. 0 \<le> Polygon_WrapIndex E p j \<and> Polygon_WrapIndex E p j < int (length p)"
  shows "offsetFromBoundary E ps pt
         = Some (case find (\<lambda>(k, i). PolygonSet_Contains E ps (displacedVertex E ps k i))
                        (nearVertices E ps pt) of
                   None \<Rightarrow> pt
                 | Some (k, i) \<Rightarrow> v2p E (displacedVertex E ps k i))"
  using offsetPolygons_find [OF assms, of "[0..<length ps]" "p2v E pt" pt]
  by (simp add: offsetFromBoundary_def nearVertices_def enumerate_as_map)

lemma offsetPolygons_Some:
  assumes "\<forall>k \<in> set ks. k < length ps"
    and "offsetPolygons E ps v pt (map (\<lambda>k. (k, ps ! k)) ks) = Some r"
  shows "r = pt \<or> (\<exists>k \<in> set ks. \<exists>i < length (ps ! k). Vec2_NearEq E (ps ! k ! i) v
            \<and> PolygonSet_Contains E ps (displacedVertex E ps k i)
            \<and> r = v2p E (displacedVertex E ps k i))"
  using assms
proof (induction ks)
  case Nil
  then show ?case by simp
next
  case (Cons k ks)
  from Cons.prems obtain hole where h: "isHole E ps k = Some hole"
    by (auto simp: Let_def split: option.splits)
  from Cons.prems have k: "k < length ps" by simp
  show ?case
  proof (cases "offsetVertices E ps (ps ! k) (Polygon_Orientation E (ps ! k)) hole v
                  (List.enumerate 0 (ps ! k))")
    case Panic
    with Cons.prems h show ?thesis by (simp add: Let_def)
  next
    case Continue
    with Cons.prems h have "offsetPolygons E ps v pt (map (\<lambda>k. (k, ps ! k)) ks) = Some r"
      by (simp add: Let_def)
    with Cons.IH Cons.prems show ?thesis by auto
  next
    case (Return r')
    with Cons.prems h have r: "r' = r" by (simp add: Let_def)
    have nek: "ps ! k \<noteq> []"
      using Return by (auto simp: enumerate_as_map)
    from isHole_Some [OF k nek h] Return r
    have "\<exists>i \<in> set [0..<length (ps ! k)]. Vec2_NearEq E (ps ! k ! i) v
            \<and> PolygonSet_Contains E ps (displacedVertex E ps k i)
            \<and> r = v2p E (displacedVertex E ps k i)"
      by (intro offsetVertices_Return [where hole = hole]) (simp_all add: enumerate_as_map)
    then show ?thesis by auto
  qed
qed

lemma offsetFromBoundary_Some:
  assumes "offsetFromBoundary E ps pt = Some r"
  shows "r = pt \<or> (\<exists>k < length ps. \<exists>i < length (ps ! k). Vec2_NearEq E (ps ! k ! i) (p2v E pt)
            \<and> PolygonSet_Contains E ps (displacedVertex E ps k i)
            \<and> r = v2p E (displacedVertex E ps k i))"
  using offsetPolygons_Some [of "[0..<length ps]" ps E "p2v E pt" pt r] assms
  by (auto simp: offsetFromBoundary_def enumerate_as_map)

text \<open>
  C5, as the code has it. For every polygon set without an empty polygon, whose
  \<^verbatim>\<open>WrapIndex\<close> stays inside each polygon, and every waypoint: \<^verbatim>\<open>offsetFromBoundary\<close>
  goes through the vertices near-equal to the waypoint, polygon by polygon, and displaces
  each along the normalized sum of the two edge normals scaled by the margin (the first
  normal alone when the two cancel), adding it to the vertex of a hole and subtracting it
  from the vertex of an area polygon. At the first vertex whose displaced point the
  polygon set contains it returns that point converted by \<^verbatim>\<open>v2p\<close>, its coordinates
  rounded; if there is none it returns the waypoint unchanged.
\<close>

theorem offsetFromBoundary_first_contained:
  assumes "\<forall>p \<in> set ps. p \<noteq> []"
    and "\<forall>p \<in> set ps. \<forall>j. 0 \<le> Polygon_WrapIndex E p j \<and> Polygon_WrapIndex E p j < int (length p)"
  shows "offsetFromBoundary E ps pt
         = Some (case find (\<lambda>(k, i). PolygonSet_Contains E ps (displacedVertex E ps k i))
                        (nearVertices E ps pt) of
                   None \<Rightarrow> pt
                 | Some (k, i) \<Rightarrow> v2p E (displacedVertex E ps k i))"
  by (rule offsetFromBoundary_find [OF assms])

section \<open>Waypoints of a returned path\<close>

lemma those_map_Some:
  "those (map g xs) = Some ys \<Longrightarrow>
     length ys = length xs \<and> (\<forall>i < length xs. g (xs ! i) = Some (ys ! i))"
proof (induction xs arbitrary: ys)
  case Nil
  then show ?case by simp
next
  case (Cons x xs)
  then obtain y ys' where y: "g x = Some y" and ys': "those (map g xs) = Some ys'" and e: "ys = y # ys'"
    by (auto split: option.splits)
  from Cons.IH [OF ys'] y e show ?case
    by (auto simp: nth_Cons split: nat.splits)
qed

lemma offsetWaypoints_Some:
  assumes "offsetWaypoints f raw = Some path"
  shows "length path = length raw
         \<and> (\<forall>i < length raw. if 0 < i \<and> i + 1 < length raw then f (raw ! i) = Some (path ! i)
                              else path ! i = raw ! i)"
proof -
  from assms have
    "those (map (\<lambda>i. if 1 \<le> i \<and> int i < int (length raw) - 1 then f (raw ! i) else Some (raw ! i))
               [0..<length raw]) = Some path"
    by (simp add: offsetWaypoints_def enumerate_as_map comp_def)
  from those_map_Some [OF this] show ?thesis
    by (auto split: if_splits)
qed

lemma offsetVertices0_Return:
  assumes "offsetVertices0 E ps p v (map (\<lambda>i. (i, p ! i)) js) = Return r"
  shows "\<exists>i \<in> set js. \<exists>bis. Vec2_NearEq E (p ! i) v \<and> bisector0 E p i (p ! i) = Some bis
            \<and> PolygonSet_Contains E ps (Vec2_Add E (p ! i) bis)
            \<and> r = v2p E (Vec2_Add E (p ! i) bis)"
  using assms
  by (induction js) (auto simp: Let_def split: if_splits option.splits)

lemma offsetPolygons0_Some:
  assumes "offsetPolygons0 E ps v pt qs = Some r"
  shows "r = pt \<or> (\<exists>p \<in> set qs. \<exists>i < length p. \<exists>bis. Vec2_NearEq E (p ! i) v
            \<and> bisector0 E p i (p ! i) = Some bis
            \<and> PolygonSet_Contains E ps (Vec2_Add E (p ! i) bis)
            \<and> r = v2p E (Vec2_Add E (p ! i) bis))"
  using assms
proof (induction qs)
  case Nil
  then show ?case by simp
next
  case (Cons p qs)
  show ?case
  proof (cases "offsetVertices0 E ps p v (List.enumerate 0 p)")
    case Panic
    with Cons.prems show ?thesis by simp
  next
    case Continue
    with Cons show ?thesis by auto
  next
    case (Return r')
    with Cons.prems have "r' = r" by simp
    with Return offsetVertices0_Return [of E ps p v "[0..<length p]" r]
    show ?thesis by (auto simp: enumerate_as_map)
  qed
qed

lemma offsetFromBoundary0_Some:
  assumes "offsetFromBoundary0 E ps pt = Some r"
  shows "r = pt \<or> (\<exists>p \<in> set ps. \<exists>i < length p. \<exists>bis. Vec2_NearEq E (p ! i) (p2v E pt)
            \<and> bisector0 E p i (p ! i) = Some bis
            \<and> PolygonSet_Contains E ps (Vec2_Add E (p ! i) bis)
            \<and> r = v2p E (Vec2_Add E (p ! i) bis))"
  using offsetPolygons0_Some [of E ps "p2v E pt" pt ps r] assms
  by (simp add: offsetFromBoundary0_def)

section \<open>What a query leaves behind\<close>

lemma Path_store:
  assumes "cachedGraph p < length h" and "Path E p start dest ks h = Some (r, p', h')"
  shows "p' = p \<and> (h' = h \<or> (\<exists>g. h' = h @ [g]))"
  using assms
  by (auto simp: Path_def Let_def prepareVisibilityGraph_eq split: if_splits option.splits bind_splits)

text \<open>
  C7. For every pathfinder whose cached graph is an allocated map, and every call of
  \<^verbatim>\<open>Path\<close> that returns: the pathfinder is the same afterwards (its polygon set, its
  reflex vertices, the address of its cached graph), every map that existed before the
  call has the contents it had, and so has the cached base graph. The call only allocates
  a map of its own, the copy, and writes there.
\<close>

theorem Path_frame:
  assumes "cachedGraph p < length h" and "Path E p start dest ks h = Some (r, p', h')"
  shows "p' = p \<and> take (length h) h' = h \<and> h' ! cachedGraph p = h ! cachedGraph p"
  using Path_store [OF assms] assms(1) by (auto simp: nth_append)

section \<open>Determinism\<close>

lemma copyG_fold:
  "fold (\<lambda>n g. case S n of
                    None \<Rightarrow> g
                  | Some adj \<Rightarrow> if length adj > 0 then g(n \<mapsto> adj) else g) ks g
   = (\<lambda>n. if n \<in> set ks
           then (case S n of None \<Rightarrow> g n | Some adj \<Rightarrow> if adj \<noteq> [] then Some adj else g n)
           else g n)"
  by (induction ks arbitrary: g) (auto split: option.splits)

lemma copyG_keys:
  assumes "set ks = dom S"
  shows "copyG S ks = (\<lambda>n. case S n of None \<Rightarrow> None | Some adj \<Rightarrow> if adj \<noteq> [] then Some adj else None)"
  using assms by (intro ext) (auto simp: copyG_def copyG_fold domIff split: option.splits)

lemma Path_result:
  assumes "cachedGraph p < length h"
  shows "map_option fst (Path E p start dest ks h)
         = (if containmentLevel E (Pathfinder.polygonSet p) start
                 \<noteq> containmentLevel E (Pathfinder.polygonSet p) dest
            then Some None
            else case astar_FindPath E
                        (prepG E (Pathfinder.polygonSet p) (Pathfinder.concaveVertices p) start
                           (clampedDest E (Pathfinder.polygonSet p) dest)
                           (copyG (h ! cachedGraph p) ks))
                        start (clampedDest E (Pathfinder.polygonSet p) dest)
                        (nodeDist E) (nodeDist E) of
                   None \<Rightarrow> Some None
                 | Some path \<Rightarrow>
                     map_option Some
                       (offsetWaypoints (offsetFromBoundary E (Pathfinder.polygonSet p)) path))"
  using assms
  by (auto simp: Path_def Let_def prepareVisibilityGraph_eq split: option.splits bind_splits)

lemma Path0_result:
  "map_option fst (Path0 E q start dest h)
   = (if containmentLevel E (Pathfinder0.polygonSet q) start
           \<noteq> containmentLevel E (Pathfinder0.polygonSet q) dest
      then Some None
      else case astar_FindPath E
                  (visG E (Pathfinder0.polygonSet q)
                     (Pathfinder0.concaveVertices q
                        @ [start, clampedDest E (Pathfinder0.polygonSet q) dest]))
                  start (clampedDest E (Pathfinder0.polygonSet q) dest)
                  (nodeDist E) (nodeDist E) of
             None \<Rightarrow> Some None
           | Some path \<Rightarrow>
               map_option Some
                 (offsetWaypoints (offsetFromBoundary0 E (Pathfinder0.polygonSet q)) path))"
  by (auto simp: Path0_def Let_def visibilityGraph_eq split: option.splits bind_splits)

lemma reachable_inv:
  assumes "reachable E polys s"
  shows "\<exists>cv. concaveVertices E (convert polys (\<lambda>ps. ps2vs E ps)) = Some cv
           \<and> Pathfinder.polygonSet (fst s) = convert polys (\<lambda>ps. ps2vs E ps)
           \<and> Pathfinder.concaveVertices (fst s) = cv
           \<and> cachedGraph (fst s) < length (snd s)
           \<and> snd s ! cachedGraph (fst s) = visG E (convert polys (\<lambda>ps. ps2vs E ps)) cv"
  using assms
proof (induction rule: reachable.induct)
  case (constructed h0 p h)
  then show ?case
    by (auto simp: NewPathfinder_def Let_def visibilityGraph_eq split: bind_splits)
next
  case (queried p h ks start dest r p' h')
  from queried.IH have c: "cachedGraph p < length h" by simp
  from Path_store [OF c queried.hyps(3)] queried.IH c show ?case
    by (auto simp: nth_append)
next
  case (allocated p h hs)
  then show ?case by (auto simp: nth_append)
qed

lemma reachable0_inv:
  assumes "reachable0 E polys q"
  shows "concaveVertices E (convert polys (\<lambda>ps. ps2vs E ps)) = Some (Pathfinder0.concaveVertices q)
         \<and> Pathfinder0.polygonSet q = convert polys (\<lambda>ps. ps2vs E ps)"
  using assms
proof (induction rule: reachable0.induct)
  case (constructed0 p)
  then show ?case
    by (auto simp: NewPathfinder0_def Let_def split: bind_splits)
next
  case (queried0 p start dest h r p' h')
  then show ?case
    by (auto simp: Path0_def Let_def split: if_splits option.splits bind_splits prod.splits)
qed

text \<open>
  C8. For every polygon set and every start and dest: any two calls of \<^verbatim>\<open>Path\<close> with
  these arguments, on pathfinders built from that polygon set, in whatever state earlier
  queries and the rest of the program have left them and whatever order the runtime
  picks for the keys of the cached graph, end the same way: both panic, or both return
  the same path (or both nil). This holds for the revision with the cached graph and for
  the one that rebuilds the graph.
\<close>

theorem Path_deterministic:
  "(reachable E polys (p1, h1) \<and> reachable E polys (p2, h2)
      \<and> set ks1 = dom (h1 ! cachedGraph p1) \<and> set ks2 = dom (h2 ! cachedGraph p2)
    \<longrightarrow> map_option fst (Path E p1 start dest ks1 h1) = map_option fst (Path E p2 start dest ks2 h2))
   \<and> (reachable0 E0 polys q1 \<and> reachable0 E0 polys q2
    \<longrightarrow> map_option fst (Path0 E0 q1 start dest h1) = map_option fst (Path0 E0 q2 start dest h2))"
proof (intro conjI impI)
  let ?PS = "convert polys (\<lambda>ps. ps2vs E ps)"
  assume a: "reachable E polys (p1, h1) \<and> reachable E polys (p2, h2)
      \<and> set ks1 = dom (h1 ! cachedGraph p1) \<and> set ks2 = dom (h2 ! cachedGraph p2)"
  from a reachable_inv [of E polys "(p1, h1)"] obtain cv1 where
    i1: "concaveVertices E ?PS = Some cv1" "Pathfinder.polygonSet p1 = ?PS"
      "Pathfinder.concaveVertices p1 = cv1" "cachedGraph p1 < length h1"
      "h1 ! cachedGraph p1 = visG E ?PS cv1"
    by auto
  from a reachable_inv [of E polys "(p2, h2)"] obtain cv2 where
    i2: "concaveVertices E ?PS = Some cv2" "Pathfinder.polygonSet p2 = ?PS"
      "Pathfinder.concaveVertices p2 = cv2" "cachedGraph p2 < length h2"
      "h2 ! cachedGraph p2 = visG E ?PS cv2"
    by auto
  from i1(1) i2(1) have cv: "cv2 = cv1" by simp
  from a have k: "set ks1 = dom (visG E ?PS cv1)" "set ks2 = dom (visG E ?PS cv1)"
    by (simp_all add: i1 i2 cv)
  have "copyG (visG E ?PS cv1) ks1 = copyG (visG E ?PS cv1) ks2"
    by (simp add: copyG_keys [OF k(1)] copyG_keys [OF k(2)])
  then show "map_option fst (Path E p1 start dest ks1 h1)
             = map_option fst (Path E p2 start dest ks2 h2)"
    by (simp add: Path_result [OF i1(4)] Path_result [OF i2(4)] i1 i2 cv cong: option.case_cong)
next
  let ?PS = "convert polys (\<lambda>ps. ps2vs E0 ps)"
  assume a: "reachable0 E0 polys q1 \<and> reachable0 E0 polys q2"
  from a reachable0_inv [of E0 polys q1]
  have j1: "concaveVertices E0 ?PS = Some (Pathfinder0.concaveVertices q1)"
      "Pathfinder0.polygonSet q1 = ?PS"
    by auto
  from a reachable0_inv [of E0 polys q2]
  have j2: "concaveVertices E0 ?PS = Some (Pathfinder0.concaveVertices q2)"
      "Pathfinder0.polygonSet q2 = ?PS"
    by auto
  from j1(1) j2(1) have "Pathfinder0.concaveVertices q2 = Pathfinder0.concaveVertices q1"
    by simp
  then show "map_option fst (Path0 E0 q1 start dest h1) = map_option fst (Path0 E0 q2 start dest h2)"
    by (simp add: Path0_result j1(2) j2(2) cong: option.case_cong)
qed

section \<open>The U-shaped area, evaluated\<close>

lemma ideal_fields:
  "float32 ideal = (\<lambda>x. x)" "float64 ideal = (\<lambda>x. x)" "int_float64 ideal = of_int"
  "math_Round ideal = go_Round" "math_Sqrt ideal = ideal_Sqrt"
  "margin ideal = 2 / 1000" "margin32 ideal = 2 / 1000"
  "Vec2_Add ideal = ideal_Add" "Vec2_Sub ideal = ideal_Sub" "Vec2_Mul ideal = ideal_Mul"
  "Vec2_Norm ideal = ideal_Norm" "Vec2_Len ideal = ideal_Len" "Vec2_NearEq ideal = ideal_NearEq"
  "Polygon_Contains ideal = ideal_Contains" "Polygon_IsConcaveAt ideal = ideal_IsConcaveAt"
  "Polygon_IsCrossedBy ideal = ideal_IsCrossedBy" "Polygon_Orientation ideal = ideal_Orientation"
  "Polygon_WrapIndex ideal = ideal_WrapIndex" "PolygonSet_Contains ideal = ideal_SetContains"
  "PolygonSet_ClosestPt ideal = ideal_ClosestPt" "LineSeg_Middle ideal = ideal_Middle"
  "astar_FindPath ideal = ideal_FindPath"
  by (simp_all add: ideal_def)

lemma vec_sel: "Vec2.X (vec a b) = a" "Vec2.Y (vec a b) = b"
  by (simp_all add: vec_def)

lemma vec_fold: "\<lparr>Vec2.X = a, Vec2.Y = b\<rparr> = vec a b"
  by (simp add: vec_def)

lemma vec_arith:
  "ideal_Add (vec a b) (vec c d) = vec (a + c) (b + d)"
  "ideal_Sub (vec a b) (vec c d) = vec (a - c) (b - d)"
  "ideal_Mul (vec a b) k = vec (a * k) (b * k)"
  by (simp_all add: ideal_Add_def ideal_Sub_def ideal_Mul_def vec_sel)

lemma unit_norms:
  "ideal_Norm (vec 0 10) = vec 0 1"
  "ideal_Norm (vec 10 0) = vec 1 0"
  "ideal_Len (vec 1 (- 1)) = 1414213 / 1000000"
  "ideal_Norm (vec 1 (- 1)) = vec (1000000 / 1414213) (- (1000000 / 1414213))"
  by (simp_all add: ideal_Norm_def ideal_Len_def vec_sel ideal_Sqrt_def eval_nat_numeral Let_def)

lemma psU_orientation: "ideal_Orientation (psU ! 0) = 1000"
  by code_simp

lemma psU_corner_displaced:
  "displacedVertex ideal psU 0 2 = vec (14140130 / 1414213) (14144130 / 1414213)"
  by (simp add: displacedVertex_def Let_def ideal_fields psU_orientation)
     (simp add: psU_def ideal_WrapIndex_def vec_arith vec_sel vec_fold unit_norms)

lemma Pt_eq [simp]: "Pt a b = Pt c d \<longleftrightarrow> a = c \<and> b = d"
  by (simp add: Pt_def)

lemma psU_sight:
  "inLineOfSight ideal psU (p2v ideal (Pt 10 10)) (p2v ideal (Pt 20 10)) = True"
  "inLineOfSight ideal psU (p2v ideal (Pt 10 10)) (p2v ideal (Pt 5 5)) = True"
  "inLineOfSight ideal psU (p2v ideal (Pt 10 10)) (p2v ideal (Pt 25 15)) = True"
  "inLineOfSight ideal psU (p2v ideal (Pt 10 10)) (p2v ideal (Pt 5 15)) = True"
  "inLineOfSight ideal psU (p2v ideal (Pt 20 10)) (p2v ideal (Pt 10 10)) = True"
  "inLineOfSight ideal psU (p2v ideal (Pt 20 10)) (p2v ideal (Pt 5 5)) = False"
  "inLineOfSight ideal psU (p2v ideal (Pt 20 10)) (p2v ideal (Pt 25 15)) = True"
  "inLineOfSight ideal psU (p2v ideal (Pt 20 10)) (p2v ideal (Pt 5 15)) = True"
  "inLineOfSight ideal psU (p2v ideal (Pt 5 5)) (p2v ideal (Pt 10 10)) = True"
  "inLineOfSight ideal psU (p2v ideal (Pt 5 5)) (p2v ideal (Pt 20 10)) = False"
  "inLineOfSight ideal psU (p2v ideal (Pt 5 5)) (p2v ideal (Pt 25 15)) = False"
  "inLineOfSight ideal psU (p2v ideal (Pt 5 5)) (p2v ideal (Pt 5 15)) = True"
  "inLineOfSight ideal psU (p2v ideal (Pt 25 15)) (p2v ideal (Pt 10 10)) = True"
  "inLineOfSight ideal psU (p2v ideal (Pt 25 15)) (p2v ideal (Pt 20 10)) = True"
  "inLineOfSight ideal psU (p2v ideal (Pt 25 15)) (p2v ideal (Pt 5 5)) = False"
  "inLineOfSight ideal psU (p2v ideal (Pt 5 15)) (p2v ideal (Pt 10 10)) = True"
  "inLineOfSight ideal psU (p2v ideal (Pt 5 15)) (p2v ideal (Pt 20 10)) = True"
  "inLineOfSight ideal psU (p2v ideal (Pt 5 15)) (p2v ideal (Pt 5 5)) = True"
  by code_simp+

lemma psU_convert: "convert polygonU (\<lambda>ps. ps2vs ideal ps) = psU"
  by code_simp

lemma psU_reflex: "concaveVertices ideal psU = Some [Pt 10 10, Pt 20 10]"
  by code_simp

lemma psU_cached: "visG ideal psU [Pt 10 10, Pt 20 10] = gcU"
  by (simp add: visG_def linkG_def lookup_def psU_sight gcU_def)

lemma psU_NewPathfinder: "NewPathfinder ideal polygonU [] = Some (pfU, [gcU])"
  by (simp add: NewPathfinder_def psU_convert psU_reflex visibilityGraph_eq psU_cached pfU_def)

lemma gcU_copy: "copyG gcU [Pt 10 10, Pt 20 10] = gcU" "copyG gcU [Pt 20 10, Pt 10 10] = gcU"
  by (rule ext, simp add: copyG_def gcU_def)+

lemma psU_extended:
  "prepG ideal psU [Pt 10 10, Pt 20 10] (Pt 5 5) (Pt 25 15) gcU = gU1"
  by (rule ext) (simp add: prepG_def Let_def linkG_def lookup_def psU_sight gcU_def gU1_def)

lemma psU_extended_direct:
  "prepG ideal psU [Pt 10 10, Pt 20 10] (Pt 5 5) (Pt 5 15) gcU = gD1"
  by (rule ext) (simp add: prepG_def Let_def linkG_def lookup_def psU_sight gcU_def gD1_def)

lemma psU_rebuilt_direct:
  "visG ideal psU [Pt 10 10, Pt 20 10, Pt 5 5, Pt 5 15] = gD0"
  by (rule ext) (simp add: visG_def linkG_def lookup_def psU_sight gD0_def)

lemma psU_near: "nearVertices ideal psU (Pt 10 10) = [(0, 2)]"
  by code_simp

lemma psU_corner_inside:
  "ideal_SetContains psU (vec (14140130 / 1414213) (14144130 / 1414213))"
  by code_simp

lemma psU_corner_rounded:
  "v2p ideal (vec (14140130 / 1414213) (14144130 / 1414213)) = Pt 10 10"
  by code_simp

lemma psU_wellformed:
  "\<forall>p \<in> set psU. p \<noteq> []"
  "\<forall>p \<in> set psU. \<forall>j. 0 \<le> Polygon_WrapIndex ideal p j \<and> Polygon_WrapIndex ideal p j < int (length p)"
  by (simp_all add: psU_def ideal_fields ideal_WrapIndex_def)

lemma psU_corner_offset: "offsetFromBoundary ideal psU (Pt 10 10) = Some (Pt 10 10)"
  by (simp add: offsetFromBoundary_find [OF psU_wellformed] psU_near psU_corner_displaced
                ideal_fields psU_corner_inside psU_corner_rounded)

lemma psU_levels2:
  "containmentLevel ideal psU (Pt 25 15) = 1" "containmentLevel ideal psU (Pt 5 15) = 1"
  by code_simp+

lemma psU_unclamped:
  "clampedDest ideal psU (Pt 25 15) = Pt 25 15" "clampedDest ideal psU (Pt 5 15) = Pt 5 15"
  by code_simp+

lemma gU1_search:
  "ideal_FindPath gU1 (Pt 5 5) (Pt 25 15) (nodeDist ideal) (nodeDist ideal)
   = Some [Pt 5 5, Pt 10 10, Pt 25 15]"
  by code_simp

lemma psU_prepare:
  "prepareVisibilityGraph ideal pfU (Pt 5 5) (Pt 25 15) [Pt 10 10, Pt 20 10] [gcU] = (1, [gcU, gU1])"
  using prepareVisibilityGraph_eq [of pfU "[gcU]" ideal "Pt 5 5" "Pt 25 15" "[Pt 10 10, Pt 20 10]"]
  by (simp add: pfU_def gcU_copy psU_extended)

lemma psU_Path:
  "Path ideal pfU (Pt 5 5) (Pt 25 15) [Pt 10 10, Pt 20 10] [gcU]
   = Some (Some [Pt 5 5, Pt 10 10, Pt 25 15], pfU, [gcU, gU1])"
proof -
  have ps: "Pathfinder.polygonSet pfU = psU"
    by (simp add: pfU_def)
  show ?thesis
    by (simp add: Path_def ps psU_levels psU_levels2 psU_unclamped psU_prepare ideal_fields
                  gU1_search offsetWaypoints_def psU_corner_offset)
qed

lemma ideal0_fields:
  "float32 ideal0 = (\<lambda>x. x)" "float64 ideal0 = (\<lambda>x. x)" "int_float64 ideal0 = of_int"
  "math_Round ideal0 = go_Round" "math_Sqrt ideal0 = ideal_Sqrt"
  "margin ideal0 = 1 / 1000" "margin32 ideal0 = 1 / 1000"
  "Vec2_Add ideal0 = ideal_Add" "Vec2_Sub ideal0 = ideal_Sub" "Vec2_Mul ideal0 = ideal_Mul"
  "Vec2_Norm ideal0 = ideal_Norm" "Vec2_Len ideal0 = ideal_Len" "Vec2_NearEq ideal0 = ideal_NearEq"
  "Polygon_Contains ideal0 = ideal_Contains" "Polygon_IsConcaveAt ideal0 = ideal_IsConcaveAt"
  "Polygon_IsCrossedBy ideal0 = ideal_IsCrossedBy" "Polygon_Orientation ideal0 = ideal_Orientation"
  "Polygon_WrapIndex ideal0 = ideal_WrapIndex" "PolygonSet_Contains ideal0 = ideal_SetContains"
  "PolygonSet_ClosestPt ideal0 = ideal_ClosestPt" "LineSeg_Middle ideal0 = ideal_Middle"
  "astar_FindPath ideal0 = ideal_FindPath"
  by (simp_all add: ideal0_def ideal_def)

lemma psU_sight0:
  "inLineOfSight ideal0 psU (p2v ideal0 (Pt 10 10)) (p2v ideal0 (Pt 20 10)) = True"
  "inLineOfSight ideal0 psU (p2v ideal0 (Pt 10 10)) (p2v ideal0 (Pt 5 5)) = True"
  "inLineOfSight ideal0 psU (p2v ideal0 (Pt 10 10)) (p2v ideal0 (Pt 25 15)) = True"
  "inLineOfSight ideal0 psU (p2v ideal0 (Pt 20 10)) (p2v ideal0 (Pt 10 10)) = True"
  "inLineOfSight ideal0 psU (p2v ideal0 (Pt 20 10)) (p2v ideal0 (Pt 5 5)) = False"
  "inLineOfSight ideal0 psU (p2v ideal0 (Pt 20 10)) (p2v ideal0 (Pt 25 15)) = True"
  "inLineOfSight ideal0 psU (p2v ideal0 (Pt 5 5)) (p2v ideal0 (Pt 10 10)) = True"
  "inLineOfSight ideal0 psU (p2v ideal0 (Pt 5 5)) (p2v ideal0 (Pt 20 10)) = False"
  "inLineOfSight ideal0 psU (p2v ideal0 (Pt 5 5)) (p2v ideal0 (Pt 25 15)) = False"
  "inLineOfSight ideal0 psU (p2v ideal0 (Pt 25 15)) (p2v ideal0 (Pt 10 10)) = True"
  "inLineOfSight ideal0 psU (p2v ideal0 (Pt 25 15)) (p2v ideal0 (Pt 20 10)) = True"
  "inLineOfSight ideal0 psU (p2v ideal0 (Pt 25 15)) (p2v ideal0 (Pt 5 5)) = False"
  by code_simp+

lemma psU_convert0: "convert polygonU (\<lambda>ps. ps2vs ideal0 ps) = psU"
  by code_simp

lemma psU_reflex0: "concaveVertices ideal0 psU = Some [Pt 10 10, Pt 20 10]"
  by code_simp

lemma psU_levels0:
  "containmentLevel ideal0 psU (Pt 5 5) = 1" "containmentLevel ideal0 psU (Pt 25 15) = 1"
  by code_simp+

lemma gU1_search0:
  "ideal_FindPath gU1 (Pt 5 5) (Pt 25 15) (nodeDist ideal0) (nodeDist ideal0)
   = Some [Pt 5 5, Pt 10 10, Pt 25 15]"
  by code_simp

lemma psU_rebuilt: "visG ideal0 psU [Pt 10 10, Pt 20 10, Pt 5 5, Pt 25 15] = gU1"
  by (rule ext) (simp add: visG_def linkG_def lookup_def psU_sight0 gU1_def)

lemma psU_corner_offset0: "offsetFromBoundary0 ideal0 psU (Pt 10 10) = Some (Pt 10 10)"
  by code_simp

lemma psU_unclamped0: "clampedDest ideal0 psU (Pt 25 15) = Pt 25 15"
  by code_simp

lemma psU_NewPathfinder0: "NewPathfinder0 ideal0 polygonU = Some pfU0"
  by (simp add: NewPathfinder0_def psU_convert0 psU_reflex0 pfU0_def)

lemma psU_Path0:
  "Path0 ideal0 pfU0 (Pt 5 5) (Pt 25 15) []
   = Some (Some [Pt 5 5, Pt 10 10, Pt 25 15], pfU0\<lparr>Pathfinder0.visibilityGraph := Some 0\<rparr>, [gU1])"
proof -
  have ps: "Pathfinder0.polygonSet pfU0 = psU" "Pathfinder0.concaveVertices pfU0 = [Pt 10 10, Pt 20 10]"
    by (simp_all add: pfU0_def)
  show ?thesis
    by (simp add: Path0_def visibilityGraph_eq ps ideal0_fields psU_levels0
                  psU_unclamped0 psU_rebuilt gU1_search0 offsetWaypoints_def psU_corner_offset0)
qed


section \<open>Claims about returned paths\<close>

text \<open>
  C2, as the code has it. For every polygon set and every non-nil path that \<^verbatim>\<open>Path\<close>
  returns, in either revision: the path is as long as the one the search found in the
  query's graph, and each of its elements is the search's own, except that an
  intermediate waypoint may instead be the \<^verbatim>\<open>v2p\<close> conversion (coordinates rounded) of a
  point that the polygon set contains, namely a polygon vertex near-equal to the search's
  waypoint, displaced by the margin along the bisector. Nothing keeps the waypoint off
  the polygon's vertices.
\<close>

theorem Path_intermediate_waypoints:
  "(Path E p start dest ks h = Some (Some path, p', h') \<longrightarrow>
      (\<exists>raw. astar_FindPath E (h' ! length h) start (clampedDest E (Pathfinder.polygonSet p) dest)
                  (nodeDist E) (nodeDist E) = Some raw
         \<and> length path = length raw
         \<and> (\<forall>i < length raw. path ! i = raw ! i
              \<or> (0 < i \<and> i + 1 < length raw
                 \<and> (\<exists>k < length (Pathfinder.polygonSet p). \<exists>j < length (Pathfinder.polygonSet p ! k).
                       Vec2_NearEq E (Pathfinder.polygonSet p ! k ! j) (p2v E (raw ! i))
                     \<and> PolygonSet_Contains E (Pathfinder.polygonSet p)
                         (displacedVertex E (Pathfinder.polygonSet p) k j)
                     \<and> path ! i = v2p E (displacedVertex E (Pathfinder.polygonSet p) k j))))))
   \<and> (Path0 E q start dest h = Some (Some path, q', h') \<longrightarrow>
      (\<exists>raw. astar_FindPath E (h' ! length h) start (clampedDest E (Pathfinder0.polygonSet q) dest)
                  (nodeDist E) (nodeDist E) = Some raw
         \<and> length path = length raw
         \<and> (\<forall>i < length raw. path ! i = raw ! i
              \<or> (0 < i \<and> i + 1 < length raw
                 \<and> (\<exists>v \<in> set (Pathfinder0.polygonSet q). \<exists>j < length v. \<exists>bis.
                       Vec2_NearEq E (v ! j) (p2v E (raw ! i))
                     \<and> bisector0 E v j (v ! j) = Some bis
                     \<and> PolygonSet_Contains E (Pathfinder0.polygonSet q) (Vec2_Add E (v ! j) bis)
                     \<and> path ! i = v2p E (Vec2_Add E (v ! j) bis))))))"
proof (intro conjI impI)
  assume a: "Path E p start dest ks h = Some (Some path, p', h')"
  let ?ps = "Pathfinder.polygonSet p"
  let ?d = "clampedDest E ?ps dest"
  obtain h1 where pv: "prepareVisibilityGraph E p start ?d ks h = (length h, h1)"
    by (cases "prepareVisibilityGraph E p start ?d ks h")
       (simp add: prepareVisibilityGraph_def copyGraph_def make_graph_def Let_def split_def)
  from a pv obtain raw where raw: "astar_FindPath E (h' ! length h) start ?d (nodeDist E) (nodeDist E) = Some raw"
    and off: "offsetWaypoints (offsetFromBoundary E ?ps) raw = Some path"
    by (auto simp: Path_def Let_def split: if_splits option.splits bind_splits)
  from offsetWaypoints_Some [OF off]
  have len: "length path = length raw"
    and each: "\<And>i. i < length raw \<Longrightarrow>
       (if 0 < i \<and> i + 1 < length raw then offsetFromBoundary E ?ps (raw ! i) = Some (path ! i)
        else path ! i = raw ! i)"
    by auto
  have "path ! i = raw ! i
        \<or> (0 < i \<and> i + 1 < length raw
           \<and> (\<exists>k < length ?ps. \<exists>j < length (?ps ! k).
                 Vec2_NearEq E (?ps ! k ! j) (p2v E (raw ! i))
               \<and> PolygonSet_Contains E ?ps (displacedVertex E ?ps k j)
               \<and> path ! i = v2p E (displacedVertex E ?ps k j)))" if i: "i < length raw" for i
  proof (cases "0 < i \<and> i + 1 < length raw")
    case True
    with each [OF i] have "offsetFromBoundary E ?ps (raw ! i) = Some (path ! i)" by simp
    from offsetFromBoundary_Some [OF this] True show ?thesis by blast
  next
    case False
    with each [OF i] show ?thesis by simp
  qed
  with raw len show "\<exists>raw. astar_FindPath E (h' ! length h) start ?d (nodeDist E) (nodeDist E) = Some raw
         \<and> length path = length raw
         \<and> (\<forall>i < length raw. path ! i = raw ! i
              \<or> (0 < i \<and> i + 1 < length raw
                 \<and> (\<exists>k < length ?ps. \<exists>j < length (?ps ! k).
                       Vec2_NearEq E (?ps ! k ! j) (p2v E (raw ! i))
                     \<and> PolygonSet_Contains E ?ps (displacedVertex E ?ps k j)
                     \<and> path ! i = v2p E (displacedVertex E ?ps k j))))"
    by blast
next
  assume a: "Path0 E q start dest h = Some (Some path, q', h')"
  let ?ps = "Pathfinder0.polygonSet q"
  let ?d = "clampedDest E ?ps dest"
  from a obtain raw where raw: "astar_FindPath E (h' ! length h) start ?d (nodeDist E) (nodeDist E) = Some raw"
    and off: "offsetWaypoints (offsetFromBoundary0 E ?ps) raw = Some path"
    by (auto simp: Path0_def visibilityGraph_eq Let_def split: if_splits option.splits bind_splits)
  from offsetWaypoints_Some [OF off]
  have len: "length path = length raw"
    and each: "\<And>i. i < length raw \<Longrightarrow>
       (if 0 < i \<and> i + 1 < length raw then offsetFromBoundary0 E ?ps (raw ! i) = Some (path ! i)
        else path ! i = raw ! i)"
    by auto
  have "path ! i = raw ! i
        \<or> (0 < i \<and> i + 1 < length raw
           \<and> (\<exists>v \<in> set ?ps. \<exists>j < length v. \<exists>bis.
                 Vec2_NearEq E (v ! j) (p2v E (raw ! i))
               \<and> bisector0 E v j (v ! j) = Some bis
               \<and> PolygonSet_Contains E ?ps (Vec2_Add E (v ! j) bis)
               \<and> path ! i = v2p E (Vec2_Add E (v ! j) bis)))" if i: "i < length raw" for i
  proof (cases "0 < i \<and> i + 1 < length raw")
    case True
    with each [OF i] have "offsetFromBoundary0 E ?ps (raw ! i) = Some (path ! i)" by simp
    from offsetFromBoundary0_Some [OF this] True show ?thesis by blast
  next
    case False
    with each [OF i] show ?thesis by simp
  qed
  with raw len show "\<exists>raw. astar_FindPath E (h' ! length h) start ?d (nodeDist E) (nodeDist E) = Some raw
         \<and> length path = length raw
         \<and> (\<forall>i < length raw. path ! i = raw ! i
              \<or> (0 < i \<and> i + 1 < length raw
                 \<and> (\<exists>v \<in> set ?ps. \<exists>j < length v. \<exists>bis.
                       Vec2_NearEq E (v ! j) (p2v E (raw ! i))
                     \<and> bisector0 E v j (v ! j) = Some bis
                     \<and> PolygonSet_Contains E ?ps (Vec2_Add E (v ! j) bis)
                     \<and> path ! i = v2p E (Vec2_Add E (v ! j) bis))))"
    by blast
qed

theorem Path_intermediate_waypoints_witness:
  "Path ideal pfU (Pt 5 5) (Pt 25 15) [Pt 10 10, Pt 20 10] [gcU]
     = Some (Some [Pt 5 5, Pt 10 10, Pt 25 15], pfU, [gcU, gU1])
   \<and> (\<exists>raw. astar_FindPath ideal ([gcU, gU1] ! length [gcU]) (Pt 5 5)
                (clampedDest ideal (Pathfinder.polygonSet pfU) (Pt 25 15)) (nodeDist ideal) (nodeDist ideal)
              = Some raw
           \<and> length [Pt 5 5, Pt 10 10, Pt 25 15 :: rat Point] = length raw)
   \<and> Path0 ideal0 pfU0 (Pt 5 5) (Pt 25 15) []
     = Some (Some [Pt 5 5, Pt 10 10, Pt 25 15], pfU0\<lparr>Pathfinder0.visibilityGraph := Some 0\<rparr>, [gU1])
   \<and> (\<exists>raw. astar_FindPath ideal0 ([gU1] ! length ([] :: rat heap)) (Pt 5 5)
                (clampedDest ideal0 (Pathfinder0.polygonSet pfU0) (Pt 25 15)) (nodeDist ideal0) (nodeDist ideal0)
              = Some raw
           \<and> length [Pt 5 5, Pt 10 10, Pt 25 15 :: rat Point] = length raw)"
  using Path_intermediate_waypoints [of ideal pfU "Pt 5 5" "Pt 25 15" "[Pt 10 10, Pt 20 10]" "[gcU]"
          "[Pt 5 5, Pt 10 10, Pt 25 15]" pfU "[gcU, gU1]"]
        Path_intermediate_waypoints [of ideal0 _ "Pt 5 5" "Pt 25 15" _ "[]"
          "[Pt 5 5, Pt 10 10, Pt 25 15]" _ "[gU1]" pfU0 "pfU0\<lparr>Pathfinder0.visibilityGraph := Some 0\<rparr>"]
        psU_Path psU_Path0
  by blast

text \<open>
  C2 as the spec words it fails on the repository's own test "One corner": the path from
  (5,5) to (25,15) in the U-shaped area turns at (10,10), which is a vertex of the polygon.
  The displaced point (10.0007, 10.0007) is rounded back to the vertex.
\<close>

theorem Path_waypoint_on_vertex_counterexample:
  "NewPathfinder0 ideal0 polygonU = Some pfU0
   \<and> map_option fst (Path0 ideal0 pfU0 (Pt 5 5) (Pt 25 15) [])
       = Some (Some [Pt 5 5, Pt 10 10, Pt 25 15])
   \<and> polygonU ! 0 ! 2 = Pt 10 10"
  by (simp add: psU_NewPathfinder0 psU_Path0) (simp add: polygonU_def)

section \<open>Witnesses on the U-shaped area\<close>

lemma psU_corner_near: "Vec2_NearEq ideal (psU ! 0 ! 2) (p2v ideal (Pt 10 10))"
  by code_simp

theorem offsetFromBoundary_first_contained_witness:
  "psU ! 0 \<noteq> []
   \<and> (\<forall>j. 0 \<le> Polygon_WrapIndex ideal (psU ! 0) j
          \<and> Polygon_WrapIndex ideal (psU ! 0) j < int (length (psU ! 0)))
   \<and> offsetFromBoundary ideal psU (Pt 10 10) = Some (Pt 10 10)"
  using offsetFromBoundary_first_contained [OF psU_wellformed, of "Pt 10 10"] psU_wellformed
  by (simp add: psU_near psU_corner_displaced ideal_fields psU_corner_inside psU_corner_rounded)
     (simp add: psU_def)

text \<open>
  C5 as the spec words it returns the displaced point itself. At the corner (10,10) of the
  U-shaped area the displaced point is about (9.9986, 10.0014) and the polygon set
  contains it, but \<^verbatim>\<open>offsetFromBoundary\<close> returns it through \<^verbatim>\<open>v2p\<close>, which rounds it
  back to (10,10).
\<close>

theorem offsetFromBoundary_rounds_counterexample:
  "Vec2_NearEq ideal (psU ! 0 ! 2) (p2v ideal (Pt 10 10))
   \<and> offsetFromBoundary ideal psU (Pt 10 10) = Some (Pt 10 10)
   \<and> offset_claimed ideal psU 0 2 (Pt 10 10) = Pt (14140130 / 1414213) (14144130 / 1414213)"
proof (intro conjI)
  show "Vec2_NearEq ideal (psU ! 0 ! 2) (p2v ideal (Pt 10 10))"
    by (rule psU_corner_near)
  show "offsetFromBoundary ideal psU (Pt 10 10) = Some (Pt 10 10)"
    by (rule psU_corner_offset)
  show "offset_claimed ideal psU 0 2 (Pt 10 10) = Pt (14140130 / 1414213) (14144130 / 1414213)"
    by (simp add: offset_claimed_def psU_corner_displaced ideal_fields psU_corner_inside
                  vec_sel Pt_def)
qed

theorem Path_frame_witness:
  "cachedGraph pfU < length [gcU]
   \<and> Path ideal pfU (Pt 5 5) (Pt 25 15) [Pt 10 10, Pt 20 10] [gcU]
       = Some (Some [Pt 5 5, Pt 10 10, Pt 25 15], pfU, [gcU, gU1])
   \<and> take (length [gcU]) [gcU, gU1] = [gcU]
   \<and> [gcU, gU1] ! cachedGraph pfU = [gcU] ! cachedGraph pfU"
  using Path_frame [of pfU "[gcU]" ideal "Pt 5 5" "Pt 25 15" "[Pt 10 10, Pt 20 10]"
          "Some [Pt 5 5, Pt 10 10, Pt 25 15]" pfU "[gcU, gU1]"] psU_Path
  by (simp add: pfU_def)

lemma gcU_keys: "dom gcU = {Pt 10 10, Pt 20 10}"
  by (auto simp: gcU_def split: if_splits)

lemma pfU_reachable:
  "reachable ideal polygonU (pfU, [gcU])" "reachable ideal polygonU (pfU, [gcU, gU1])"
proof -
  show r: "reachable ideal polygonU (pfU, [gcU])"
    by (rule reachable.constructed [OF psU_NewPathfinder])
  show "reachable ideal polygonU (pfU, [gcU, gU1])"
    by (rule reachable.queried [OF r _ psU_Path]) (simp add: pfU_def gcU_keys)
qed

lemma pfU0_reachable:
  "reachable0 ideal0 polygonU pfU0"
  "reachable0 ideal0 polygonU (pfU0\<lparr>Pathfinder0.visibilityGraph := Some 0\<rparr>)"
proof -
  show r: "reachable0 ideal0 polygonU pfU0"
    by (rule reachable0.constructed0 [OF psU_NewPathfinder0])
  show "reachable0 ideal0 polygonU (pfU0\<lparr>Pathfinder0.visibilityGraph := Some 0\<rparr>)"
    by (rule reachable0.queried0 [OF r psU_Path0])
qed

theorem Path_deterministic_witness:
  "reachable ideal polygonU (pfU, [gcU]) \<and> reachable ideal polygonU (pfU, [gcU, gU1])
   \<and> set [Pt 10 10, Pt 20 10] = dom ([gcU] ! cachedGraph pfU)
   \<and> set [Pt 20 10, Pt 10 10] = dom ([gcU, gU1] ! cachedGraph pfU)
   \<and> map_option fst (Path ideal pfU (Pt 5 5) (Pt 25 15) [Pt 10 10, Pt 20 10] [gcU])
       = map_option fst (Path ideal pfU (Pt 5 5) (Pt 25 15) [Pt 20 10, Pt 10 10] [gcU, gU1])
   \<and> reachable0 ideal0 polygonU pfU0
   \<and> reachable0 ideal0 polygonU (pfU0\<lparr>Pathfinder0.visibilityGraph := Some 0\<rparr>)
   \<and> map_option fst (Path0 ideal0 pfU0 (Pt 5 5) (Pt 25 15) [])
       = map_option fst (Path0 ideal0 (pfU0\<lparr>Pathfinder0.visibilityGraph := Some 0\<rparr>)
                           (Pt 5 5) (Pt 25 15) [gU1])"
proof -
  have k: "set [Pt 10 10, Pt 20 10] = dom ([gcU] ! cachedGraph pfU)"
      "set [Pt 20 10, Pt 10 10] = dom ([gcU, gU1] ! cachedGraph pfU)"
    by (auto simp: pfU_def gcU_keys)
  from Path_deterministic [of ideal polygonU pfU "[gcU]" pfU "[gcU, gU1]"
         "[Pt 10 10, Pt 20 10]" "[Pt 20 10, Pt 10 10]" "Pt 5 5" "Pt 25 15"]
       pfU_reachable k
  have one: "map_option fst (Path ideal pfU (Pt 5 5) (Pt 25 15) [Pt 10 10, Pt 20 10] [gcU])
       = map_option fst (Path ideal pfU (Pt 5 5) (Pt 25 15) [Pt 20 10, Pt 10 10] [gcU, gU1])"
    by blast
  from Path_deterministic [of _ polygonU _ "[]" _ "[gU1]" _ _ "Pt 5 5" "Pt 25 15" ideal0 pfU0
         "pfU0\<lparr>Pathfinder0.visibilityGraph := Some 0\<rparr>"]
       pfU0_reachable
  have two: "map_option fst (Path0 ideal0 pfU0 (Pt 5 5) (Pt 25 15) [])
       = map_option fst (Path0 ideal0 (pfU0\<lparr>Pathfinder0.visibilityGraph := Some 0\<rparr>)
                           (Pt 5 5) (Pt 25 15) [gU1])"
    by blast
  from one two pfU_reachable pfU0_reachable k show ?thesis
    by blast
qed

end
